theory Spec2Isabelle
  imports Main
begin

section \<open>Exceptions and the operating system\<close>

text \<open>
  Modelled from the spec: the class \<^verbatim>\<open>CommandError\<close> of the module \<^verbatim>\<open>common\<close> is not
  among the sources; by the specification it carries the rendered command string and
  nothing else.

  The other exceptions that the functions of \<^verbatim>\<open>releng/executor.py\<close> raise or let
  through: \<^verbatim>\<open>AssertionError\<close> is what a failing \<^verbatim>\<open>assert\<close>
  raises (the specification calls it the InvalidArgument condition),
  \<^verbatim>\<open>KeyError\<close> carries the missing key, \<^verbatim>\<open>CalledProcessError\<close> is raised by
  \<^verbatim>\<open>subprocess.check_call\<close> and \<^verbatim>\<open>subprocess.check_output\<close>, \<^verbatim>\<open>OSError\<close> by a
  process that cannot be started, \<^verbatim>\<open>TypeError\<close> by \<^verbatim>\<open>'+ ' + cmd_string\<close> on a list
  and \<^verbatim>\<open>ValueError\<close> by a tuple unpacking of the wrong length.
\<close>

datatype exc =
    CommandError string
  | CalledProcessError
  | AssertionError
  | KeyError string
  | TypeError
  | ValueError
  | OSError

text \<open>
  A command is what the callers pass as \<^verbatim>\<open>cmd\<close>: a single string or a list of
  argument strings.
\<close>

datatype cmd = CmdStr string | CmdList "string list"

type_synonym env = "string \<rightharpoonup> string"

text \<open>
  The keyword arguments handed on to \<^verbatim>\<open>subprocess\<close>: the keys that the module reads
  or writes. A field is \<open>None\<close> when the key is absent from the dictionary.
\<close>

record kwargs =
  kw_shell :: "bool option"
  kw_executable :: "string option"
  kw_cwd :: "string option"
  kw_env :: "env option"

text \<open>What a spawned process does: it exits with a status and its standard output,
  or it cannot be started at all.\<close>

datatype proc_outcome = Exited int string | SpawnFailed

text \<open>
  The primitives of the operating system and of the Python standard library that the
  module calls (\<^verbatim>\<open>os.getcwd\<close>, \<^verbatim>\<open>os.path.isabs\<close>, \<^verbatim>\<open>os.path.isfile\<close>,
  \<^verbatim>\<open>os.path.join\<close>, \<^verbatim>\<open>os.path.splitext\<close>, \<^verbatim>\<open>os.pathsep\<close>, \<^verbatim>\<open>os.environ\<close>,
  \<^verbatim>\<open>sys.platform == 'win32' or os.name == 'os2'\<close>, and the process spawned by
  \<^verbatim>\<open>subprocess\<close>) are parameters of the model.
\<close>

record os =
  os_getcwd :: string
  os_path_isabs :: "string \<Rightarrow> bool"
  os_path_isfile :: "string \<Rightarrow> bool"
  os_path_join :: "string \<Rightarrow> string \<Rightarrow> string"
  os_path_splitext :: "string \<Rightarrow> string \<times> string"
  os_pathsep :: char
  os_environ :: env
  os_win32 :: bool
  os_spawn :: "cmd \<Rightarrow> kwargs \<Rightarrow> proc_outcome"

section \<open>CurrentDirectoryTracker\<close>

record CurrentDirectoryTracker =
  cwd :: string

text \<open>\<^verbatim>\<open>__init__\<close>: \<^verbatim>\<open>self.cwd = os.getcwd()\<close>.\<close>

definition tracker_init :: "os \<Rightarrow> CurrentDirectoryTracker" where
  "tracker_init w = \<lparr>cwd = os_getcwd w\<rparr>"

text \<open>
  \<^verbatim>\<open>chdir\<close>: \<^verbatim>\<open>assert os.path.isabs(path); self.cwd = path\<close>. The result is the
  exception or the return value \<^verbatim>\<open>None\<close>, together with the tracker after the call.
  The \<^verbatim>\<open>assert\<close> statement is executed (the interpreter does not run with \<^verbatim>\<open>-O\<close>).
\<close>

definition chdir ::
  "os \<Rightarrow> string \<Rightarrow> CurrentDirectoryTracker \<Rightarrow> (exc + unit) \<times> CurrentDirectoryTracker" where
  "chdir w path t =
     (if \<not> os_path_isabs w path then (Inl AssertionError, t)
      else (Inr (), t\<lparr>cwd := path\<rparr>))"

text \<open>The trackers that a program can reach: the constructor, then calls of \<^verbatim>\<open>chdir\<close>
  (a call that raises leaves the tracker as it was).\<close>

inductive reachable :: "os \<Rightarrow> CurrentDirectoryTracker \<Rightarrow> bool" for w :: os where
  reach_init: "reachable w (tracker_init w)"
| reach_chdir: "reachable w t \<Longrightarrow> reachable w (snd (chdir w path t))"

text \<open>\<^verbatim>\<open>posixpath.isabs\<close>: \<^verbatim>\<open>return s.startswith('/')\<close>.\<close>

definition posix_isabs :: "string \<Rightarrow> bool" where
  "posix_isabs s = (case s of [] \<Rightarrow> False | c # _ \<Rightarrow> c = CHR ''/'')"

text \<open>\<^verbatim>\<open>posixpath.join\<close> of two components.\<close>

definition posix_join :: "string \<Rightarrow> string \<Rightarrow> string" where
  "posix_join a b =
     (if posix_isabs b then b
      else if a = [] \<or> last a = CHR ''/'' then a @ b
      else a @ ''/'' @ b)"

section \<open>Python string primitives\<close>

text \<open>The module runs under Python 2 (it imports \<^verbatim>\<open>pipes\<close> and \<^verbatim>\<open>distutils\<close>):
  strings are byte strings, modelled as lists of \<^typ>\<open>char\<close>.\<close>

definition ascii_letters :: string where
  "ascii_letters = ''abcdefghijklmnopqrstuvwxyzABCDEFGHIJKLMNOPQRSTUVWXYZ''"

definition digits :: string where
  "digits = ''0123456789''"

text \<open>The class \<^verbatim>\<open>\w\<close> of \<^verbatim>\<open>re\<close> on a byte string, without flags: \<^verbatim>\<open>[a-zA-Z0-9_]\<close>.\<close>

definition is_word :: "char \<Rightarrow> bool" where
  "is_word c = (c \<in> set (ascii_letters @ digits @ ''_''))"

text \<open>The white space that \<^verbatim>\<open>str.strip()\<close> removes and \<^verbatim>\<open>str.isspace\<close> accepts:
  space, tab, line feed, vertical tab, form feed, carriage return.\<close>

definition is_space :: "char \<Rightarrow> bool" where
  "is_space c = (c \<in> set [CHR '' '', CHR 0x09, CHR 0x0A, CHR 0x0B, CHR 0x0C, CHR 0x0D])"

definition is_linebreak :: "char \<Rightarrow> bool" where
  "is_linebreak c = (c = CHR 0x0A \<or> c = CHR 0x0D)"

text \<open>
  \<^verbatim>\<open>str.splitlines()\<close>: while characters remain, take the line up to the next line
  break, skip the break (\<^verbatim>\<open>\r\n\<close> counts as one) and add the line without it.
\<close>

function splitlines :: "string \<Rightarrow> string list" where
  "splitlines s =
     (if s = [] then []
      else (let line = takeWhile (\<lambda>c. \<not> is_linebreak c) s;
                rest = dropWhile (\<lambda>c. \<not> is_linebreak c) s
            in case rest of
                 [] \<Rightarrow> [line]
               | c # rest1 \<Rightarrow>
                   (case rest1 of
                      [] \<Rightarrow> [line]
                    | d # rest2 \<Rightarrow>
                        if c = CHR 0x0D \<and> d = CHR 0x0A then line # splitlines rest2
                        else line # splitlines rest1)))"
  by pat_completeness auto
termination
proof (relation "measure length", goal_cases)
  case 1
  show ?case by simp
next
  case (2 s line rest c rest1 d rest2)
  then have "dropWhile (\<lambda>c. \<not> is_linebreak c) s = c # d # rest2"
    by (simp only:)
  then have "Suc (Suc (length rest2)) = length (dropWhile (\<lambda>c. \<not> is_linebreak c) s)"
    by (simp only: list.size)
  also have "\<dots> \<le> length s"
    by (rule length_dropWhile_le)
  finally show ?case by simp
next
  case (3 s line rest c rest1 d rest2)
  then have "dropWhile (\<lambda>c. \<not> is_linebreak c) s = c # rest1"
    by (simp only:)
  then have "Suc (length rest1) = length (dropWhile (\<lambda>c. \<not> is_linebreak c) s)"
    by (simp only: list.size)
  also have "\<dots> \<le> length s"
    by (rule length_dropWhile_le)
  finally show ?case by simp
qed

text \<open>\<^verbatim>\<open>str.strip()\<close>.\<close>

definition strip :: "string \<Rightarrow> string" where
  "strip s = rev (dropWhile is_space (rev (dropWhile is_space s)))"

text \<open>\<^verbatim>\<open>s.split(sep, 1)\<close> for a separator of one character: at most one split, at the
  first occurrence.\<close>

definition split1 :: "char \<Rightarrow> string \<Rightarrow> string list" where
  "split1 sep s =
     (case dropWhile (\<lambda>c. c \<noteq> sep) s of
        [] \<Rightarrow> [s]
      | _ # after \<Rightarrow> [takeWhile (\<lambda>c. c \<noteq> sep) s, after])"

text \<open>\<^verbatim>\<open>s.split(sep)\<close> for a separator of one character.\<close>

fun split :: "char \<Rightarrow> string \<Rightarrow> string list" where
  "split sep [] = [[]]"
| "split sep (c # cs) =
     (if c = sep then [] # split sep cs
      else (case split sep cs of
              [] \<Rightarrow> [[c]]
            | x # xs \<Rightarrow> (c # x) # xs))"

text \<open>\<^verbatim>\<open>sep.join(xs)\<close>.\<close>

fun join :: "string \<Rightarrow> string list \<Rightarrow> string" where
  "join sep [] = []"
| "join sep [x] = x"
| "join sep (x # y # ys) = x @ sep @ join sep (y # ys)"

text \<open>\<^verbatim>\<open>re.match(r'\w+=', line)\<close>: the longest run of word characters at the start of
  the line is not empty and an equals sign follows it (\<^verbatim>\<open>=\<close> is not a word character,
  so no shorter run can match).\<close>

definition re_match_word_eq :: "string \<Rightarrow> bool" where
  "re_match_word_eq line =
     (takeWhile is_word line \<noteq> [] \<and>
      (case dropWhile is_word line of [] \<Rightarrow> False | c # _ \<Rightarrow> c = CHR ''=''))"

section \<open>Rendering a command\<close>

text \<open>
  \<^verbatim>\<open>pipes.quote\<close> (Python 2.7): a string of safe characters is returned as it is
  (the empty string as two single quotes); any other string is wrapped in single quotes,
  each single quote inside written as \<^verbatim>\<open>'"'"'\<close>.
\<close>

definition safechars :: string where
  "safechars = ascii_letters @ digits @ ''@%_-+=:,./''"

definition squote :: char where
  "squote = CHR 0x27"

definition dquote :: char where
  "dquote = CHR 0x22"

definition backslash :: char where
  "backslash = CHR 0x5C"

definition replace_squote :: "string \<Rightarrow> string" where
  "replace_squote file =
     concat (map (\<lambda>c. if c = squote then [squote, dquote, squote, dquote, squote] else [c]) file)"

definition quote :: "string \<Rightarrow> string" where
  "quote file =
     (if list_all (\<lambda>c. c \<in> set safechars) file
      then (if file = [] then [squote, squote] else file)
      else [squote] @ replace_squote file @ [squote])"

text \<open>The characters that a POSIX shell treats specially when they are not quoted: the
  metacharacters that separate words (space, tab, newline and \<^verbatim>\<open>| & ; ( ) < >\<close>), the
  quoting characters, and the characters of expansions, patterns and comments. The
  theorems use it to say which tokens get quoted.\<close>

definition shell_metachars :: string where
  "shell_metachars =
     [CHR '' '', CHR 0x09, CHR 0x0A, CHR ''|'', CHR ''&'', CHR '';'', CHR ''('', CHR '')'',
      CHR ''<'', CHR ''>'', CHR ''$'', CHR 0x60, CHR 0x5C, CHR 0x22, CHR 0x27, CHR ''*'',
      CHR ''?'', CHR ''['', CHR '']'', CHR ''#'', CHR ''~'', CHR ''!'', CHR ''{'', CHR ''}'']"

text \<open>
  \<^verbatim>\<open>subprocess.list2cmdline\<close>. The inner loop runs over the characters of one
  argument with the result so far and the buffer of pending backslashes.
\<close>

fun list2cmdline_chars :: "string \<Rightarrow> string \<times> string \<Rightarrow> string \<times> string" where
  "list2cmdline_chars [] (result, bs_buf) = (result, bs_buf)"
| "list2cmdline_chars (c # cs) (result, bs_buf) =
     (if c = backslash then list2cmdline_chars cs (result, bs_buf @ [c])
      else if c = dquote then
        list2cmdline_chars cs
          (result @ replicate (length bs_buf * 2) backslash @ [backslash, dquote], [])
      else list2cmdline_chars cs (result @ bs_buf @ [c], []))"

text \<open>The outer loop over the arguments. (The source collects pieces and joins them at
  the end; every argument adds a piece that is not empty, so \<^verbatim>\<open>if result:\<close> is the same
  test on the joined string.)\<close>

fun list2cmdline_args :: "string list \<Rightarrow> string \<Rightarrow> string" where
  "list2cmdline_args [] result = result"
| "list2cmdline_args (arg # seq) result =
     (let result1 = (if result \<noteq> [] then result @ '' '' else result);
          needquote = (CHR '' '' \<in> set arg \<or> CHR 0x09 \<in> set arg \<or> arg = []);
          result2 = (if needquote then result1 @ [dquote] else result1);
          (result3, bs_buf) = list2cmdline_chars arg (result2, []);
          result4 = result3 @ bs_buf;
          result5 = (if needquote then result4 @ bs_buf @ [dquote] else result4)
      in list2cmdline_args seq result5)"

definition list2cmdline :: "string list \<Rightarrow> string" where
  "list2cmdline seq = list2cmdline_args seq []"

text \<open>What \<^verbatim>\<open>for x in cmd\<close> runs over: the elements of a list, the characters of a
  string.\<close>

definition tokens :: "cmd \<Rightarrow> string list" where
  "tokens c = (case c of CmdList xs \<Rightarrow> xs | CmdStr str \<Rightarrow> map (\<lambda>ch. [ch]) str)"

section \<open>The store, the factory and the executors\<close>

text \<open>
  Dictionaries and trackers are objects held by reference: the store maps addresses to
  them. Addresses below \<open>dict_lim\<close> hold the dictionaries created so far. The console
  is the list of messages written with \<^verbatim>\<open>print(..., file=console)\<close> by this module, one
  entry for each call (each is followed by a newline on the stream).
\<close>

type_synonym addr = nat

record state =
  dicts :: "addr \<Rightarrow> env"
  dict_lim :: addr
  trackers :: "addr \<Rightarrow> CurrentDirectoryTracker"
  console :: "string list"

text \<open>Modelled from the spec: the enumeration \<^verbatim>\<open>System\<close> of the module \<^verbatim>\<open>common\<close> is
  not among the sources; the specification gives the platform tag as WINDOWS or other.\<close>

datatype System = WINDOWS | OTHER

datatype executor = Executor | DryRunExecutor

record factory =
  f_cwd :: addr
  f_env :: addr
  f_system :: "System option"
  f_executor :: executor

record CommandRunner =
  r_cwd :: addr
  r_env :: addr
  r_shell_call_opts :: kwargs
  r_is_windows :: bool
  r_executor :: executor

definition empty_kwargs :: kwargs where
  "empty_kwargs = \<lparr>kw_shell = None, kw_executable = None, kw_cwd = None, kw_env = None\<rparr>"

text \<open>\<^verbatim>\<open>kwargs.update(other)\<close>: the keys of \<open>other\<close> replace those of \<open>kwargs\<close>.\<close>

definition kwargs_update :: "kwargs \<Rightarrow> kwargs \<Rightarrow> kwargs" where
  "kwargs_update kw other =
     \<lparr>kw_shell = (case kw_shell other of None \<Rightarrow> kw_shell kw | Some v \<Rightarrow> Some v),
      kw_executable = (case kw_executable other of None \<Rightarrow> kw_executable kw | Some v \<Rightarrow> Some v),
      kw_cwd = (case kw_cwd other of None \<Rightarrow> kw_cwd kw | Some v \<Rightarrow> Some v),
      kw_env = (case kw_env other of None \<Rightarrow> kw_env kw | Some v \<Rightarrow> Some v)\<rparr>"

text \<open>\<^verbatim>\<open>dict(d)\<close>: a new dictionary with the entries of \<open>d\<close>, at a fresh address.\<close>

definition dict_copy :: "addr \<Rightarrow> state \<Rightarrow> addr \<times> state" where
  "dict_copy a s =
     (dict_lim s, s\<lparr>dicts := (dicts s)(dict_lim s := dicts s a), dict_lim := Suc (dict_lim s)\<rparr>)"

text \<open>\<^verbatim>\<open>d[k] = v\<close> on the dictionary at address \<open>a\<close>.\<close>

definition dict_set :: "addr \<Rightarrow> string \<Rightarrow> string \<Rightarrow> state \<Rightarrow> state" where
  "dict_set a k v s = s\<lparr>dicts := (dicts s)(a := (dicts s a)(k \<mapsto> v))\<rparr>"

text \<open>Any change of the dictionary at address \<open>a\<close> by another holder of the reference.\<close>

definition dict_mutate :: "addr \<Rightarrow> (env \<Rightarrow> env) \<Rightarrow> state \<Rightarrow> state" where
  "dict_mutate a g s = s\<lparr>dicts := (dicts s)(a := g (dicts s a))\<rparr>"

definition print_console :: "string \<Rightarrow> state \<Rightarrow> state" where
  "print_console msg s = s\<lparr>console := console s @ [msg]\<rparr>"

text \<open>\<^verbatim>\<open>subprocess.call\<close>, \<^verbatim>\<open>subprocess.check_call\<close> and \<^verbatim>\<open>subprocess.check_output\<close>
  in terms of the spawned process.\<close>

definition subprocess_call :: "os \<Rightarrow> cmd \<Rightarrow> kwargs \<Rightarrow> exc + int" where
  "subprocess_call w c kw =
     (case os_spawn w c kw of SpawnFailed \<Rightarrow> Inl OSError | Exited rc out \<Rightarrow> Inr rc)"

definition subprocess_check_call :: "os \<Rightarrow> cmd \<Rightarrow> kwargs \<Rightarrow> exc + int" where
  "subprocess_check_call w c kw =
     (case subprocess_call w c kw of
        Inl e \<Rightarrow> Inl e
      | Inr rc \<Rightarrow> if rc \<noteq> 0 then Inl CalledProcessError else Inr 0)"

definition subprocess_check_output :: "os \<Rightarrow> cmd \<Rightarrow> kwargs \<Rightarrow> exc + string" where
  "subprocess_check_output w c kw =
     (case os_spawn w c kw of
        SpawnFailed \<Rightarrow> Inl OSError
      | Exited rc out \<Rightarrow> if rc \<noteq> 0 then Inl CalledProcessError else Inr out)"

text \<open>The methods \<^verbatim>\<open>call\<close>, \<^verbatim>\<open>check_call\<close> and \<^verbatim>\<open>check_output\<close> of the two executors.
  \<^verbatim>\<open>Executor.check_call\<close> drops the result; the methods of \<^verbatim>\<open>DryRunExecutor\<close> are
  \<^verbatim>\<open>return 0\<close>, \<^verbatim>\<open>pass\<close> and \<^verbatim>\<open>pass\<close> (which returns \<^verbatim>\<open>None\<close>).\<close>

definition executor_call :: "os \<Rightarrow> executor \<Rightarrow> cmd \<Rightarrow> kwargs \<Rightarrow> exc + int" where
  "executor_call w ex c kw =
     (case ex of Executor \<Rightarrow> subprocess_call w c kw | DryRunExecutor \<Rightarrow> Inr 0)"

definition executor_check_call :: "os \<Rightarrow> executor \<Rightarrow> cmd \<Rightarrow> kwargs \<Rightarrow> exc + unit" where
  "executor_check_call w ex c kw =
     (case ex of
        Executor \<Rightarrow> (case subprocess_check_call w c kw of Inl e \<Rightarrow> Inl e | Inr _ \<Rightarrow> Inr ())
      | DryRunExecutor \<Rightarrow> Inr ())"

definition executor_check_output ::
  "os \<Rightarrow> executor \<Rightarrow> cmd \<Rightarrow> kwargs \<Rightarrow> exc + string option" where
  "executor_check_output w ex c kw =
     (case ex of
        Executor \<Rightarrow> (case subprocess_check_output w c kw of Inl e \<Rightarrow> Inl e | Inr out \<Rightarrow> Inr (Some out))
      | DryRunExecutor \<Rightarrow> Inr None)"

section \<open>CommandRunner\<close>

text \<open>
  \<^verbatim>\<open>__init__\<close>. \<^verbatim>\<open>factory.system\<close> is \<^verbatim>\<open>None\<close> or a value of \<^verbatim>\<open>System\<close>;
  \<^verbatim>\<open>_is_windows\<close> is used as a truth value only.
\<close>

definition CommandRunner_init :: "factory \<Rightarrow> state \<Rightarrow> CommandRunner \<times> state" where
  "CommandRunner_init f s =
     (let (e, s1) = dict_copy (f_env f) s;
          opts = (if f_system f \<noteq> None \<and> f_system f \<noteq> Some WINDOWS
                  then empty_kwargs\<lparr>kw_executable := Some ''/bin/bash''\<rparr>
                  else empty_kwargs)
      in (\<lparr>r_cwd = f_cwd f, r_env = e, r_shell_call_opts = opts,
           r_is_windows = (f_system f = Some WINDOWS), r_executor = f_executor f\<rparr>, s1))"

text \<open>\<^verbatim>\<open>set_env_var\<close>; the value is \<open>None\<close> for Python's \<^verbatim>\<open>None\<close>.\<close>

definition set_env_var :: "CommandRunner \<Rightarrow> string \<Rightarrow> string option \<Rightarrow> state \<Rightarrow> state" where
  "set_env_var r variable val s =
     (case val of None \<Rightarrow> s | Some v \<Rightarrow> dict_set (r_env r) variable v s)"

text \<open>The default of the parameter \<^verbatim>\<open>sep\<close>.\<close>

definition sep_default :: string where
  "sep_default = '' ''"

definition append_to_env_var ::
  "CommandRunner \<Rightarrow> string \<Rightarrow> string \<Rightarrow> string \<Rightarrow> state \<Rightarrow> state" where
  "append_to_env_var r variable val sep s =
     (case dicts s (r_env r) variable of
        None \<Rightarrow> dict_set (r_env r) variable val s
      | Some old \<Rightarrow>
          if old \<noteq> [] then dict_set (r_env r) variable (old @ sep @ val) s
          else dict_set (r_env r) variable val s)"

definition prepend_to_env_var ::
  "CommandRunner \<Rightarrow> string \<Rightarrow> string \<Rightarrow> string \<Rightarrow> state \<Rightarrow> state" where
  "prepend_to_env_var r variable val sep s =
     (case dicts s (r_env r) variable of
        None \<Rightarrow> dict_set (r_env r) variable val s
      | Some old \<Rightarrow>
          if old \<noteq> [] then dict_set (r_env r) variable (join sep [val, old]) s
          else dict_set (r_env r) variable val s)"

text \<open>\<^verbatim>\<open>_cmd_to_string\<close>: in shell mode the command itself is returned, string or list.\<close>

definition cmd_to_string :: "CommandRunner \<Rightarrow> cmd \<Rightarrow> bool \<Rightarrow> cmd" where
  "cmd_to_string r c shell =
     (if shell then c
      else if r_is_windows r then CmdStr (list2cmdline (tokens c))
      else CmdStr (join '' '' (map quote (tokens c))))"

text \<open>
  \<^verbatim>\<open>_prepare_cmd\<close>. \<^verbatim>\<open>'+ ' + cmd_string\<close> raises \<^verbatim>\<open>TypeError\<close> when the rendering is a
  list. The environment handed to the process is the content of the owned dictionary
  at the time of the call. \<^verbatim>\<open>utils.flush_output()\<close> changes nothing modelled here.
\<close>

definition prepare_cmd ::
  "CommandRunner \<Rightarrow> cmd \<Rightarrow> kwargs \<Rightarrow> state \<Rightarrow> (exc + string \<times> kwargs) \<times> state" where
  "prepare_cmd r c kw s =
     (let shell = (case kw_shell kw of None \<Rightarrow> False | Some b \<Rightarrow> b) in
      case cmd_to_string r c shell of
        CmdList _ \<Rightarrow> (Inl TypeError, s)
      | CmdStr cmd_string \<Rightarrow>
          (let s1 = print_console (''+ '' @ cmd_string) s;
               kw1 = (if shell then kwargs_update kw (r_shell_call_opts r) else kw);
               kw2 = (if kw_cwd kw1 = None
                      then kw1\<lparr>kw_cwd := Some (cwd (trackers s1 (r_cwd r)))\<rparr> else kw1);
               kw3 = (if kw_env kw2 = None
                      then kw2\<lparr>kw_env := Some (dicts s1 (r_env r))\<rparr> else kw2)
           in (Inr (cmd_string, kw3), s1)))"

text \<open>\<^verbatim>\<open>call\<close>, \<^verbatim>\<open>check_call\<close>, \<^verbatim>\<open>check_output\<close>: only \<^verbatim>\<open>CalledProcessError\<close> is caught.\<close>

definition call :: "os \<Rightarrow> CommandRunner \<Rightarrow> cmd \<Rightarrow> kwargs \<Rightarrow> state \<Rightarrow> (exc + int) \<times> state" where
  "call w r c kw s =
     (case prepare_cmd r c kw s of
        (Inl e, s1) \<Rightarrow> (Inl e, s1)
      | (Inr (cmd_string, kw1), s1) \<Rightarrow>
          (case executor_call w (r_executor r) c kw1 of
             Inl e \<Rightarrow> (if e = CalledProcessError then (Inl (CommandError cmd_string), s1)
                       else (Inl e, s1))
           | Inr rc \<Rightarrow> (Inr rc, s1)))"

definition check_call ::
  "os \<Rightarrow> CommandRunner \<Rightarrow> cmd \<Rightarrow> kwargs \<Rightarrow> state \<Rightarrow> (exc + unit) \<times> state" where
  "check_call w r c kw s =
     (case prepare_cmd r c kw s of
        (Inl e, s1) \<Rightarrow> (Inl e, s1)
      | (Inr (cmd_string, kw1), s1) \<Rightarrow>
          (case executor_check_call w (r_executor r) c kw1 of
             Inl e \<Rightarrow> (if e = CalledProcessError then (Inl (CommandError cmd_string), s1)
                       else (Inl e, s1))
           | Inr u \<Rightarrow> (Inr (), s1)))"

definition check_output ::
  "os \<Rightarrow> CommandRunner \<Rightarrow> cmd \<Rightarrow> kwargs \<Rightarrow> state \<Rightarrow> (exc + string option) \<times> state" where
  "check_output w r c kw s =
     (case prepare_cmd r c kw s of
        (Inl e, s1) \<Rightarrow> (Inl e, s1)
      | (Inr (cmd_string, kw1), s1) \<Rightarrow>
          (case executor_check_output w (r_executor r) c kw1 of
             Inl e \<Rightarrow> (if e = CalledProcessError then (Inl (CommandError cmd_string), s1)
                       else (Inl e, s1))
           | Inr out \<Rightarrow> (Inr out, s1)))"

text \<open>
  \<^verbatim>\<open>import_env\<close>. The body of the loop for one line: a line that matches is stripped
  and split at the first equals sign, and the two parts are unpacked (\<^verbatim>\<open>ValueError\<close>
  if there are not two); any other line is printed to the console.
\<close>

definition import_line :: "CommandRunner \<Rightarrow> string \<Rightarrow> state \<Rightarrow> (exc + unit) \<times> state" where
  "import_line r line s =
     (if re_match_word_eq line then
        (case split1 (CHR ''='') (strip line) of
           [variable, val] \<Rightarrow> (Inr (), dict_set (r_env r) variable val s)
         | _ \<Rightarrow> (Inl ValueError, s))
      else (Inr (), print_console line s))"

fun import_lines :: "CommandRunner \<Rightarrow> string list \<Rightarrow> state \<Rightarrow> (exc + unit) \<times> state" where
  "import_lines r [] s = (Inr (), s)"
| "import_lines r (line # ls) s =
     (case import_line r line s of
        (Inl e, s1) \<Rightarrow> (Inl e, s1)
      | (Inr u, s1) \<Rightarrow> import_lines r ls s1)"

definition import_env ::
  "os \<Rightarrow> CommandRunner \<Rightarrow> string \<Rightarrow> string \<Rightarrow> state \<Rightarrow> (exc + unit) \<times> state" where
  "import_env w r env_cmd cmake_command s =
     (let c = env_cmd @ '' && '' @ cmake_command @ '' -E environment'' in
      case check_output w r (CmdStr c) (empty_kwargs\<lparr>kw_shell := Some True\<rparr>) s of
        (Inl e, s1) \<Rightarrow> (Inl e, s1)
      | (Inr new_env, s1) \<Rightarrow>
          (case new_env of
             None \<Rightarrow> (Inr (), s1)
           | Some out \<Rightarrow>
               if out \<noteq> [] then import_lines r (splitlines out) s1 else (Inr (), s1)))"

text \<open>The two parts that \<^verbatim>\<open>variable, value = line.strip().split('=', 1)\<close> binds,
  for a line with an equals sign.\<close>

definition line_binding :: "string \<Rightarrow> string \<times> string" where
  "line_binding line =
     (takeWhile (\<lambda>c. c \<noteq> CHR ''='') (strip line), tl (dropWhile (\<lambda>c. c \<noteq> CHR ''='') (strip line)))"

text \<open>The state that the loop of \<^verbatim>\<open>import_env\<close> is to reach from the lines \<open>ls\<close>: the
  bindings of the matching lines added to the owned mapping, the last binding of a
  variable winning, and the other lines appended to the console.\<close>

definition imported :: "CommandRunner \<Rightarrow> string list \<Rightarrow> state \<Rightarrow> state" where
  "imported r ls s =
     s\<lparr>dicts := (dicts s)(r_env r := dicts s (r_env r)
                   ++ map_of (rev (map line_binding (filter re_match_word_eq ls)))),
       console := console s @ filter (\<lambda>l. \<not> re_match_word_eq l) ls\<rparr>"

text \<open>
  \<^verbatim>\<open>distutils.spawn.find_executable\<close> (Python 2.7): without a \<open>path\<close> the search list
  is \<^verbatim>\<open>os.environ['PATH']\<close>.
\<close>

fun search_paths :: "os \<Rightarrow> string list \<Rightarrow> string \<Rightarrow> string option" where
  "search_paths w [] executable = None"
| "search_paths w (p # ps) executable =
     (let f = os_path_join w p executable in
      if os_path_isfile w f then Some f else search_paths w ps executable)"

definition distutils_find_executable ::
  "os \<Rightarrow> string \<Rightarrow> string option \<Rightarrow> exc + string option" where
  "distutils_find_executable w executable path =
     (case (case path of
              None \<Rightarrow> (case os_environ w ''PATH'' of
                         None \<Rightarrow> Inl (KeyError ''PATH'') | Some p \<Rightarrow> Inr p)
            | Some p \<Rightarrow> Inr p) of
        Inl e \<Rightarrow> Inl e
      | Inr path1 \<Rightarrow>
          (let paths = split (os_pathsep w) path1;
               (base, ext) = os_path_splitext w executable;
               executable1 = (if os_win32 w \<and> ext \<noteq> ''.exe''
                              then executable @ ''.exe'' else executable)
           in if \<not> os_path_isfile w executable1
              then Inr (search_paths w paths executable1)
              else Inr (Some executable1)))"

text \<open>\<^verbatim>\<open>CommandRunner.find_executable\<close>: \<^verbatim>\<open>self._env['PATH']\<close> raises \<^verbatim>\<open>KeyError\<close> when
  the key is missing.\<close>

definition find_executable ::
  "os \<Rightarrow> CommandRunner \<Rightarrow> string \<Rightarrow> state \<Rightarrow> exc + string option" where
  "find_executable w r name s =
     (case dicts s (r_env r) ''PATH'' of
        None \<Rightarrow> Inl (KeyError ''PATH'')
      | Some p \<Rightarrow> distutils_find_executable w name (Some p))"

section \<open>Sequences of calls that change the environment of a runner\<close>

text \<open>The four methods of a runner that write to its environment, as the calls of a
  caller; a sequence of calls stops at the first exception.\<close>

datatype env_op =
    SetVar string "string option"
  | AppendVar string string string
  | PrependVar string string string
  | ImportEnv string string

fun run_op :: "os \<Rightarrow> CommandRunner \<Rightarrow> env_op \<Rightarrow> state \<Rightarrow> (exc + unit) \<times> state" where
  "run_op w r (SetVar variable val) s = (Inr (), set_env_var r variable val s)"
| "run_op w r (AppendVar variable val sep) s = (Inr (), append_to_env_var r variable val sep s)"
| "run_op w r (PrependVar variable val sep) s = (Inr (), prepend_to_env_var r variable val sep s)"
| "run_op w r (ImportEnv env_cmd cmake_command) s = import_env w r env_cmd cmake_command s"

fun run_ops :: "os \<Rightarrow> CommandRunner \<Rightarrow> env_op list \<Rightarrow> state \<Rightarrow> (exc + unit) \<times> state" where
  "run_ops w r [] s = (Inr (), s)"
| "run_ops w r (x # xs) s =
     (case run_op w r x s of
        (Inl e, s1) \<Rightarrow> (Inl e, s1)
      | (Inr u, s1) \<Rightarrow> run_ops w r xs s1)"

section \<open>A POSIX system and example values\<close>

text \<open>\<^verbatim>\<open>posixpath.splitext\<close>: the extension starts at the last dot of the last
  component, unless only dots come before it in that component.\<close>

definition posix_splitext :: "string \<Rightarrow> string \<times> string" where
  "posix_splitext p =
     (let name = rev (takeWhile (\<lambda>c. c \<noteq> CHR ''/'') (rev p));
          body = dropWhile (\<lambda>c. c = CHR ''.'') name
      in if CHR ''.'' \<in> set body
         then (rev (tl (dropWhile (\<lambda>c. c \<noteq> CHR ''.'') (rev p))),
               CHR ''.'' # rev (takeWhile (\<lambda>c. c \<noteq> CHR ''.'') (rev p)))
         else (p, []))"

text \<open>A small world: \<^verbatim>\<open>false\<close> exits with status 1, the environment command prints
  three lines, every other command prints nothing and exits with status 0.\<close>

definition example_output :: string where
  "example_output =
     ''FOO=bar'' @ [CHR 0x0A] @ ''notaline'' @ [CHR 0x0A] @ ''BAZ=qux'' @ [CHR 0x0A]"

definition example_spawn :: "cmd \<Rightarrow> kwargs \<Rightarrow> proc_outcome" where
  "example_spawn c kw =
     (if c = CmdList [''false''] then Exited 1 []
      else if c = CmdStr ''setup.sh && cmake -E environment'' then Exited 0 example_output
      else Exited 0 [])"

definition example_os :: os where
  "example_os =
     \<lparr>os_getcwd = ''/home/jenkins'',
      os_path_isabs = posix_isabs,
      os_path_isfile = (\<lambda>p. p = ''/usr/bin/cmake''),
      os_path_join = posix_join,
      os_path_splitext = posix_splitext,
      os_pathsep = CHR '':'',
      os_environ = [''PATH'' \<mapsto> ''/opt/ambient/bin''],
      os_win32 = False,
      os_spawn = example_spawn\<rparr>"

text \<open>A store with one dictionary, the snapshot \<open>e\<close>, at address 0, the factories that
  refer to it, and the runner constructed from such a factory with the store after the
  construction.\<close>

definition example_state :: "env \<Rightarrow> state" where
  "example_state e =
     \<lparr>dicts = (\<lambda>a. if a = 0 then e else Map.empty),
      dict_lim = 1,
      trackers = (\<lambda>a. tracker_init example_os),
      console = []\<rparr>"

definition example_factory :: "System option \<Rightarrow> executor \<Rightarrow> factory" where
  "example_factory sys ex = \<lparr>f_cwd = 0, f_env = 0, f_system = sys, f_executor = ex\<rparr>"

definition example_runner :: "System option \<Rightarrow> executor \<Rightarrow> CommandRunner" where
  "example_runner sys ex = fst (CommandRunner_init (example_factory sys ex) (example_state Map.empty))"

definition example_started :: "env \<Rightarrow> state" where
  "example_started e = snd (CommandRunner_init (example_factory None Executor) (example_state e))"

section \<open>Theorems\<close>

subsection \<open>The directory tracker\<close>

text \<open>
  C4. For every absolute path \<open>p\<close>, \<open>chdir\<close> replaces the stored path, so that the current
  directory is \<open>p\<close> afterwards; for every path that is not absolute, \<open>chdir\<close> fails with
  the assertion failure (the InvalidArgument condition of the specification) and the
  stored path is unchanged.
\<close>

theorem chdir_absolute_or_fails:
  "(os_path_isabs w p \<longrightarrow> chdir w p t = (Inr (), t\<lparr>cwd := p\<rparr>) \<and> cwd (snd (chdir w p t)) = p)
   \<and> (\<not> os_path_isabs w p \<longrightarrow> chdir w p t = (Inl AssertionError, t))"
  by (simp add: chdir_def)

theorem chdir_absolute_or_fails_witness:
  "os_path_isabs example_os ''/tmp/build''
   \<and> chdir example_os ''/tmp/build'' (tracker_init example_os) = (Inr (), \<lparr>cwd = ''/tmp/build''\<rparr>)
   \<and> \<not> os_path_isabs example_os ''build''
   \<and> chdir example_os ''build'' (tracker_init example_os) = (Inl AssertionError, \<lparr>cwd = ''/home/jenkins''\<rparr>)"
  using chdir_absolute_or_fails [of example_os "''/tmp/build''" "tracker_init example_os"]
    chdir_absolute_or_fails [of example_os "''build''" "tracker_init example_os"]
  by (simp add: example_os_def posix_isabs_def tracker_init_def)

text \<open>
  C6. In every reachable state of the directory tracker the stored path is absolute,
  given that the current directory of the process, with which the tracker starts, is
  absolute: \<open>chdir\<close>, the only operation that changes the path, stores absolute paths
  only.
\<close>

theorem tracker_path_always_absolute:
  assumes start: "os_path_isabs w (os_getcwd w)"
    and reach: "reachable w t"
  shows "os_path_isabs w (cwd t)"
  using reach
proof (induction rule: reachable.induct)
  case reach_init
  from start show ?case by (simp add: tracker_init_def)
next
  case (reach_chdir t path)
  show ?case
  proof (cases "os_path_isabs w path")
    case True
    then show ?thesis by (simp add: chdir_def)
  next
    case False
    with reach_chdir.IH show ?thesis by (simp add: chdir_def)
  qed
qed

theorem tracker_path_always_absolute_witness:
  "os_path_isabs example_os (os_getcwd example_os)
   \<and> reachable example_os \<lparr>cwd = ''/tmp/build''\<rparr>
   \<and> os_path_isabs example_os (cwd \<lparr>cwd = ''/tmp/build''\<rparr>)"
proof -
  have start: "os_path_isabs example_os (os_getcwd example_os)"
    by (simp add: example_os_def posix_isabs_def)
  have "reachable example_os (snd (chdir example_os ''/tmp/build'' (tracker_init example_os)))"
    by (rule reach_chdir [OF reach_init])
  then have reach: "reachable example_os \<lparr>cwd = ''/tmp/build''\<rparr>"
    by (simp add: chdir_def example_os_def posix_isabs_def tracker_init_def)
  from start reach tracker_path_always_absolute [OF start reach] show ?thesis
    by blast
qed

subsection \<open>Setting and extending variables\<close>

text \<open>
  C8. For every variable \<open>X\<close> and every state, \<open>set_env_var\<close> with the value \<open>None\<close> leaves
  the whole state, and so the whole owned mapping, unchanged; with a value \<open>v\<close> it sets
  \<open>X\<close> to \<open>v\<close> in the owned mapping and changes no other variable.
\<close>

theorem set_env_var_none_unchanged:
  "set_env_var r X None s = s
   \<and> dicts (set_env_var r X (Some v) s) (r_env r) = (dicts s (r_env r))(X \<mapsto> v)"
  by (simp add: set_env_var_def dict_set_def)

theorem set_env_var_none_unchanged_witness:
  "set_env_var (example_runner None Executor) ''CC'' None (example_started [''PATH'' \<mapsto> ''/usr/bin''])
     = example_started [''PATH'' \<mapsto> ''/usr/bin'']
   \<and> dicts (set_env_var (example_runner None Executor) ''CC'' (Some ''gcc'')
        (example_started [''PATH'' \<mapsto> ''/usr/bin''])) (r_env (example_runner None Executor))
     = [''PATH'' \<mapsto> ''/usr/bin'', ''CC'' \<mapsto> ''gcc'']"
  using set_env_var_none_unchanged [of "example_runner None Executor" "''CC''"
      "example_started [''PATH'' \<mapsto> ''/usr/bin'']" "''gcc''"]
  by (simp add: example_runner_def example_started_def CommandRunner_init_def dict_copy_def
      example_factory_def example_state_def)

text \<open>
  C7. \<open>append_to_env_var\<close> appends the separator and the value to the existing value
  when the variable is present in the owned mapping with a value that is not empty, and
  sets the variable to the value otherwise; no other variable changes. With the default
  separator, appending \<open>/x\<close> to \<open>PATH\<close> gives \<open>/x\<close> when \<open>PATH\<close> was unset and \<open>/a /x\<close> when it
  was \<open>/a\<close> (the witness).
\<close>

theorem append_to_env_var_appends_or_sets:
  "(\<forall>old. dicts s (r_env r) name = Some old \<and> old \<noteq> [] \<longrightarrow>
      dicts (append_to_env_var r name v sep s) (r_env r) name = Some (old @ sep @ v))
   \<and> (dicts s (r_env r) name = None \<or> dicts s (r_env r) name = Some [] \<longrightarrow>
      dicts (append_to_env_var r name v sep s) (r_env r) name = Some v)
   \<and> (\<forall>other. other \<noteq> name \<longrightarrow>
      dicts (append_to_env_var r name v sep s) (r_env r) other = dicts s (r_env r) other)"
  by (auto simp add: append_to_env_var_def dict_set_def split: option.splits)

theorem append_to_env_var_appends_or_sets_witness:
  "dicts (example_started Map.empty) (r_env (example_runner None Executor)) ''PATH'' = None
   \<and> dicts (append_to_env_var (example_runner None Executor) ''PATH'' ''/x'' sep_default
        (example_started Map.empty)) (r_env (example_runner None Executor)) ''PATH'' = Some ''/x''
   \<and> dicts (example_started [''PATH'' \<mapsto> ''/a'']) (r_env (example_runner None Executor)) ''PATH''
       = Some ''/a''
   \<and> dicts (append_to_env_var (example_runner None Executor) ''PATH'' ''/x'' sep_default
        (example_started [''PATH'' \<mapsto> ''/a''])) (r_env (example_runner None Executor)) ''PATH''
       = Some ''/a /x''"
  using append_to_env_var_appends_or_sets [of "example_started Map.empty"
      "example_runner None Executor" "''PATH''" "''/x''" sep_default]
    append_to_env_var_appends_or_sets [of "example_started [''PATH'' \<mapsto> ''/a'']"
      "example_runner None Executor" "''PATH''" "''/x''" sep_default]
  by (simp add: example_runner_def example_started_def CommandRunner_init_def dict_copy_def
      example_factory_def example_state_def sep_default_def)

subsection \<open>Running commands\<close>

lemma prepare_cmd_console:
  assumes "prepare_cmd r c kw s = (Inr (cmd_string, kw1), s1)"
  shows "s1 = print_console (''+ '' @ cmd_string) s"
  using assms by (auto simp add: prepare_cmd_def Let_def split: cmd.splits)

lemma prepare_cmd_list_in_shell_mode:
  "prepare_cmd r (CmdList xs) (kw\<lparr>kw_shell := Some True\<rparr>) s = (Inl TypeError, s)"
  by (simp add: prepare_cmd_def cmd_to_string_def)

lemma prepare_cmd_succeeds:
  assumes "kw_shell kw \<noteq> Some True \<or> c = CmdStr str"
  shows "\<exists>cmd_string kw1. prepare_cmd r c kw s
           = (Inr (cmd_string, kw1), print_console (''+ '' @ cmd_string) s)"
  using assms by (auto simp add: prepare_cmd_def cmd_to_string_def Let_def split: option.splits)

text \<open>
  C1. With the real executor, for every command that the runner starts (its preparation
  gives the display string and the keyword arguments for the process) and that exits
  with a status other than zero: \<open>check_call\<close> raises \<open>CommandError\<close> with the display
  string as its message, the line written to the console is \<open>+\<close>, a space and that same
  string, and \<open>call\<close> returns the exit status and raises nothing.
\<close>

theorem check_call_raises_call_returns:
  assumes "r_executor r = Executor"
    and "prepare_cmd r c kw s = (Inr (cmd_string, kw1), s1)"
    and "os_spawn w c kw1 = Exited rc out"
    and "rc \<noteq> 0"
  shows "check_call w r c kw s = (Inl (CommandError cmd_string), s1)
         \<and> console s1 = console s @ [''+ '' @ cmd_string]
         \<and> call w r c kw s = (Inr rc, s1)"
proof -
  have "check_call w r c kw s = (Inl (CommandError cmd_string), s1)"
    using assms
    by (simp add: check_call_def executor_check_call_def subprocess_check_call_def
        subprocess_call_def)
  moreover have "console s1 = console s @ [''+ '' @ cmd_string]"
    using prepare_cmd_console [OF assms(2)] by (simp add: print_console_def)
  moreover have "call w r c kw s = (Inr rc, s1)"
    using assms by (simp add: call_def executor_call_def subprocess_call_def)
  ultimately show ?thesis by simp
qed

theorem check_call_raises_call_returns_witness:
  "r_executor (example_runner (Some OTHER) Executor) = Executor
   \<and> os_spawn example_os (CmdList [''false''])
        (empty_kwargs\<lparr>kw_cwd := Some ''/home/jenkins'', kw_env := Some [''PATH'' \<mapsto> ''/usr/bin'']\<rparr>)
       = Exited 1 []
   \<and> check_call example_os (example_runner (Some OTHER) Executor) (CmdList [''false''])
        empty_kwargs (example_started [''PATH'' \<mapsto> ''/usr/bin''])
       = (Inl (CommandError ''false''),
          print_console ''+ false'' (example_started [''PATH'' \<mapsto> ''/usr/bin'']))
   \<and> console (print_console ''+ false'' (example_started [''PATH'' \<mapsto> ''/usr/bin'']))
       = [''+ false'']
   \<and> call example_os (example_runner (Some OTHER) Executor) (CmdList [''false''])
        empty_kwargs (example_started [''PATH'' \<mapsto> ''/usr/bin''])
       = (Inr 1, print_console ''+ false'' (example_started [''PATH'' \<mapsto> ''/usr/bin'']))"
proof -
  let ?r = "example_runner (Some OTHER) Executor"
  let ?s = "example_started [''PATH'' \<mapsto> ''/usr/bin'']"
  let ?kw = "empty_kwargs\<lparr>kw_cwd := Some ''/home/jenkins'', kw_env := Some [''PATH'' \<mapsto> ''/usr/bin'']\<rparr>"
  have ex: "r_executor ?r = Executor"
    by (simp add: example_runner_def CommandRunner_init_def dict_copy_def example_factory_def)
  have env: "dicts ?s (r_env ?r) = [''PATH'' \<mapsto> ''/usr/bin'']"
    by (simp add: example_runner_def example_started_def CommandRunner_init_def dict_copy_def
        example_factory_def example_state_def)
  have dir: "cwd (trackers ?s (r_cwd ?r)) = ''/home/jenkins''"
    by (simp add: example_runner_def example_started_def CommandRunner_init_def dict_copy_def
        example_factory_def example_state_def tracker_init_def example_os_def)
  have win: "\<not> r_is_windows ?r"
    by (simp add: example_runner_def CommandRunner_init_def dict_copy_def example_factory_def)
  have q: "quote ''false'' = ''false''"
    by (simp add: quote_def safechars_def ascii_letters_def digits_def)
  have prep: "prepare_cmd ?r (CmdList [''false'']) empty_kwargs ?s
                = (Inr (''false'', ?kw), print_console ''+ false'' ?s)"
    using env dir win q
    by (simp add: prepare_cmd_def cmd_to_string_def tokens_def empty_kwargs_def print_console_def)
  have spawn: "os_spawn example_os (CmdList [''false'']) ?kw = Exited 1 []"
    by (simp add: example_os_def example_spawn_def)
  have con: "console ?s = []"
    by (simp add: example_started_def CommandRunner_init_def dict_copy_def example_state_def)
  from ex spawn con check_call_raises_call_returns [OF ex prep spawn] show ?thesis
    by simp
qed

subsection \<open>Finding an executable\<close>

lemma search_paths_environ:
  "search_paths (w\<lparr>os_environ := ambient\<rparr>) paths executable = search_paths w paths executable"
  by (induction paths) (simp_all add: Let_def)

lemma distutils_find_executable_environ:
  "distutils_find_executable (w\<lparr>os_environ := ambient\<rparr>) executable (Some p)
     = distutils_find_executable w executable (Some p)"
  by (simp add: distutils_find_executable_def search_paths_environ Let_def split: prod.splits)

text \<open>
  C9. If the owned mapping has no entry \<open>PATH\<close>, \<open>find_executable\<close> fails with the
  key-lookup error \<open>KeyError\<close> and returns nothing. If the entry is present with the
  value \<open>p\<close>, the result is the name itself (with \<open>.exe\<close> added on Windows) when that
  is a file, and otherwise the first file found in the directories of \<open>p\<close>; it is the
  same whatever the environment of the process is.
\<close>

theorem find_executable_uses_owned_path:
  "(dicts s (r_env r) ''PATH'' = None \<longrightarrow> find_executable w r name s = Inl (KeyError ''PATH''))
   \<and> (\<forall>p. dicts s (r_env r) ''PATH'' = Some p \<longrightarrow>
        find_executable w r name s
          = Inr (let executable = (if os_win32 w \<and> snd (os_path_splitext w name) \<noteq> ''.exe''
                                   then name @ ''.exe'' else name)
                 in if os_path_isfile w executable then Some executable
                    else search_paths w (split (os_pathsep w) p) executable)
        \<and> (\<forall>ambient. find_executable (w\<lparr>os_environ := ambient\<rparr>) r name s
                        = find_executable w r name s))"
proof (intro conjI allI impI)
  assume "dicts s (r_env r) ''PATH'' = None"
  then show "find_executable w r name s = Inl (KeyError ''PATH'')"
    by (simp add: find_executable_def)
next
  fix p
  assume "dicts s (r_env r) ''PATH'' = Some p"
  then show "find_executable w r name s
          = Inr (let executable = (if os_win32 w \<and> snd (os_path_splitext w name) \<noteq> ''.exe''
                                   then name @ ''.exe'' else name)
                 in if os_path_isfile w executable then Some executable
                    else search_paths w (split (os_pathsep w) p) executable)"
    by (simp add: find_executable_def distutils_find_executable_def Let_def split: prod.splits)
next
  fix p ambient
  assume "dicts s (r_env r) ''PATH'' = Some p"
  then show "find_executable (w\<lparr>os_environ := ambient\<rparr>) r name s = find_executable w r name s"
    by (simp add: find_executable_def distutils_find_executable_environ)
qed

theorem find_executable_uses_owned_path_witness:
  "dicts (example_started Map.empty) (r_env (example_runner None Executor)) ''PATH'' = None
   \<and> find_executable example_os (example_runner None Executor) ''cmake'' (example_started Map.empty)
       = Inl (KeyError ''PATH'')
   \<and> dicts (example_started [''PATH'' \<mapsto> ''/opt/bin:/usr/bin'']) (r_env (example_runner None Executor))
        ''PATH'' = Some ''/opt/bin:/usr/bin''
   \<and> find_executable example_os (example_runner None Executor) ''cmake''
        (example_started [''PATH'' \<mapsto> ''/opt/bin:/usr/bin'']) = Inr (Some ''/usr/bin/cmake'')
   \<and> find_executable (example_os\<lparr>os_environ := Map.empty\<rparr>) (example_runner None Executor) ''cmake''
        (example_started [''PATH'' \<mapsto> ''/opt/bin:/usr/bin'']) = Inr (Some ''/usr/bin/cmake'')"
proof -
  let ?r = "example_runner None Executor"
  let ?s = "example_started [''PATH'' \<mapsto> ''/opt/bin:/usr/bin'']"
  have unset: "dicts (example_started Map.empty) (r_env ?r) ''PATH'' = None"
    by (simp add: example_runner_def example_started_def CommandRunner_init_def dict_copy_def
        example_factory_def example_state_def)
  have present: "dicts ?s (r_env ?r) ''PATH'' = Some ''/opt/bin:/usr/bin''"
    by (simp add: example_runner_def example_started_def CommandRunner_init_def dict_copy_def
        example_factory_def example_state_def)
  have paths: "split (os_pathsep example_os) ''/opt/bin:/usr/bin'' = [''/opt/bin'', ''/usr/bin'']"
    by (simp add: example_os_def)
  have found: "search_paths example_os [''/opt/bin'', ''/usr/bin''] ''cmake'' = Some ''/usr/bin/cmake''"
    by (simp add: example_os_def posix_join_def posix_isabs_def)
  have plain: "\<not> os_win32 example_os" "\<not> os_path_isfile example_os ''cmake''"
    by (simp_all add: example_os_def)
  note thm1 = find_executable_uses_owned_path [of "example_started Map.empty" ?r example_os "''cmake''"]
  note thm2 = find_executable_uses_owned_path [of ?s ?r example_os "''cmake''"]
  have a: "find_executable example_os ?r ''cmake'' (example_started Map.empty) = Inl (KeyError ''PATH'')"
    using thm1 unset by blast
  have b: "find_executable example_os ?r ''cmake'' ?s = Inr (Some ''/usr/bin/cmake'')"
    using thm2 present paths found plain by simp
  have c: "find_executable (example_os\<lparr>os_environ := Map.empty\<rparr>) ?r ''cmake'' ?s
             = find_executable example_os ?r ''cmake'' ?s"
    using thm2 present by blast
  from unset present a b c show ?thesis by simp
qed

subsection \<open>Importing an environment\<close>

text \<open>
  C10, as the code has it. When the captured-output primitive of the backend returns no
  output (\<open>None\<close>, as \<open>check_output\<close> of \<open>DryRunExecutor\<close> does, or the empty string),
  \<open>import_env\<close> raises nothing and leaves the store, and so the owned mapping,
  unchanged; the console receives one message, the line \<open>+\<close>, space and the composite
  command, with which \<open>check_output\<close> of the runner logs the command it is given. With
  \<open>DryRunExecutor\<close> that is always the case.
\<close>

theorem import_env_no_output_logs_command_only:
  "(\<forall>out s1. (out = None \<or> out = Some [])
       \<and> check_output w r (CmdStr (env_cmd @ '' && '' @ cmake_command @ '' -E environment''))
            (empty_kwargs\<lparr>kw_shell := Some True\<rparr>) s = (Inr out, s1) \<longrightarrow>
       import_env w r env_cmd cmake_command s
         = (Inr (), s\<lparr>console := console s
                        @ [''+ '' @ env_cmd @ '' && '' @ cmake_command @ '' -E environment'']\<rparr>))
   \<and> (r_executor r = DryRunExecutor \<longrightarrow>
       import_env w r env_cmd cmake_command s
         = (Inr (), s\<lparr>console := console s
                        @ [''+ '' @ env_cmd @ '' && '' @ cmake_command @ '' -E environment'']\<rparr>))"
proof (intro conjI allI impI)
  fix out s1
  let ?c = "env_cmd @ '' && '' @ cmake_command @ '' -E environment''"
  assume h: "(out = None \<or> out = Some [])
       \<and> check_output w r (CmdStr ?c) (empty_kwargs\<lparr>kw_shell := Some True\<rparr>) s = (Inr out, s1)"
  then have "s1 = print_console (''+ '' @ ?c) s"
    by (auto simp add: check_output_def prepare_cmd_def cmd_to_string_def empty_kwargs_def Let_def
        split: sum.splits if_splits)
  with h show "import_env w r env_cmd cmake_command s
         = (Inr (), s\<lparr>console := console s @ [''+ '' @ ?c]\<rparr>)"
    by (auto simp add: import_env_def print_console_def)
next
  let ?c = "env_cmd @ '' && '' @ cmake_command @ '' -E environment''"
  assume "r_executor r = DryRunExecutor"
  then have "check_output w r (CmdStr ?c) (empty_kwargs\<lparr>kw_shell := Some True\<rparr>) s
               = (Inr None, print_console (''+ '' @ ?c) s)"
    by (simp add: check_output_def prepare_cmd_def cmd_to_string_def empty_kwargs_def Let_def
        executor_check_output_def)
  then show "import_env w r env_cmd cmake_command s
         = (Inr (), s\<lparr>console := console s @ [''+ '' @ ?c]\<rparr>)"
    by (simp add: import_env_def print_console_def)
qed

theorem import_env_no_output_logs_command_only_witness:
  "r_executor (example_runner (Some OTHER) DryRunExecutor) = DryRunExecutor
   \<and> import_env example_os (example_runner (Some OTHER) DryRunExecutor) ''setup.sh'' ''cmake''
        (example_started [''PATH'' \<mapsto> ''/usr/bin''])
       = (Inr (), (example_started [''PATH'' \<mapsto> ''/usr/bin''])
                    \<lparr>console := [''+ setup.sh && cmake -E environment'']\<rparr>)
   \<and> check_output example_os (example_runner (Some OTHER) Executor)
        (CmdStr ''true && cmake -E environment'') (empty_kwargs\<lparr>kw_shell := Some True\<rparr>)
        (example_started [''PATH'' \<mapsto> ''/usr/bin''])
       = (Inr (Some []), print_console ''+ true && cmake -E environment''
                           (example_started [''PATH'' \<mapsto> ''/usr/bin'']))
   \<and> import_env example_os (example_runner (Some OTHER) Executor) ''true'' ''cmake''
        (example_started [''PATH'' \<mapsto> ''/usr/bin''])
       = (Inr (), (example_started [''PATH'' \<mapsto> ''/usr/bin''])
                    \<lparr>console := [''+ true && cmake -E environment'']\<rparr>)"
proof -
  let ?d = "example_runner (Some OTHER) DryRunExecutor"
  let ?r = "example_runner (Some OTHER) Executor"
  let ?s = "example_started [''PATH'' \<mapsto> ''/usr/bin'']"
  have dry: "r_executor ?d = DryRunExecutor"
    by (simp add: example_runner_def CommandRunner_init_def dict_copy_def example_factory_def)
  have real: "r_executor ?r = Executor"
    by (simp add: example_runner_def CommandRunner_init_def dict_copy_def example_factory_def)
  have con: "console ?s = []"
    by (simp add: example_started_def CommandRunner_init_def dict_copy_def example_state_def)
  have out: "check_output example_os ?r (CmdStr ''true && cmake -E environment'')
               (empty_kwargs\<lparr>kw_shell := Some True\<rparr>) ?s
             = (Inr (Some []), print_console ''+ true && cmake -E environment'' ?s)"
    using real
    by (simp add: check_output_def prepare_cmd_def cmd_to_string_def executor_check_output_def
        subprocess_check_output_def example_os_def example_spawn_def empty_kwargs_def Let_def)
  note thm1 = import_env_no_output_logs_command_only [of example_os ?d "''setup.sh''" "''cmake''" ?s]
  note thm2 = import_env_no_output_logs_command_only [of example_os ?r "''true''" "''cmake''" ?s]
  have a: "import_env example_os ?d ''setup.sh'' ''cmake'' ?s
             = (Inr (), ?s\<lparr>console := [''+ setup.sh && cmake -E environment'']\<rparr>)"
    using thm1 dry con by simp
  have "import_env example_os ?r ''true'' ''cmake'' ?s
          = (Inr (), ?s\<lparr>console := console ?s @ [''+ '' @ ''true'' @ '' && '' @ ''cmake''
                                       @ '' -E environment'']\<rparr>)"
    using thm2 out by simp
  then have b: "import_env example_os ?r ''true'' ''cmake'' ?s
             = (Inr (), ?s\<lparr>console := [''+ true && cmake -E environment'']\<rparr>)"
    using con by simp
  from dry a out b show ?thesis by simp
qed

text \<open>C10, as it is stated, fails: a dry run of \<open>import_env\<close> on an empty console
  leaves one message there.\<close>

theorem import_env_dry_run_writes_console:
  "console (example_started [''PATH'' \<mapsto> ''/usr/bin'']) = []
   \<and> import_env example_os (example_runner (Some OTHER) DryRunExecutor) ''setup.sh'' ''cmake''
        (example_started [''PATH'' \<mapsto> ''/usr/bin''])
       = (Inr (), (example_started [''PATH'' \<mapsto> ''/usr/bin''])
                    \<lparr>console := [''+ setup.sh && cmake -E environment'']\<rparr>)
   \<and> console (snd (import_env example_os (example_runner (Some OTHER) DryRunExecutor) ''setup.sh''
        ''cmake'' (example_started [''PATH'' \<mapsto> ''/usr/bin''])))
       \<noteq> console (example_started [''PATH'' \<mapsto> ''/usr/bin''])"
proof -
  let ?r = "example_runner (Some OTHER) DryRunExecutor"
  let ?s = "example_started [''PATH'' \<mapsto> ''/usr/bin'']"
  have dry: "r_executor ?r = DryRunExecutor"
    by (simp add: example_runner_def CommandRunner_init_def dict_copy_def example_factory_def)
  have shell: "cmd_to_string ?r (CmdStr ''setup.sh && cmake -E environment'') True
                 = CmdStr ''setup.sh && cmake -E environment''"
    by (simp add: cmd_to_string_def)
  have con: "console ?s = []"
    by (simp add: example_started_def CommandRunner_init_def dict_copy_def example_state_def)
  have run: "import_env example_os ?r ''setup.sh'' ''cmake'' ?s
               = (Inr (), ?s\<lparr>console := [''+ setup.sh && cmake -E environment'']\<rparr>)"
    using dry shell con
    by (simp add: import_env_def check_output_def prepare_cmd_def executor_check_output_def
        empty_kwargs_def print_console_def Let_def)
  from con run show ?thesis by simp
qed

lemma is_word_not_space: "is_word c \<Longrightarrow> \<not> is_space c"
  by (auto simp add: is_word_def is_space_def ascii_letters_def digits_def)

lemma eq_not_word: "\<not> is_word (CHR ''='')" "\<not> is_space (CHR ''='')"
  by (simp_all add: is_word_def is_space_def ascii_letters_def digits_def)

lemma dropWhile_keeps: "\<not> P y \<Longrightarrow> dropWhile P (xs @ y # ys) = dropWhile P xs @ y # ys"
  by (induction xs) simp_all

lemma takeWhile_stops: "\<forall>x \<in> set xs. P x \<Longrightarrow> \<not> P y \<Longrightarrow> takeWhile P (xs @ y # ys) = xs"
  by (induction xs) simp_all

lemma dropWhile_stops: "\<forall>x \<in> set xs. P x \<Longrightarrow> \<not> P y \<Longrightarrow> dropWhile P (xs @ y # ys) = y # ys"
  by (induction xs) simp_all


lemma re_match_decompose:
  assumes "re_match_word_eq line"
  shows "line = takeWhile is_word line @ CHR ''='' # tl (dropWhile is_word line)"
    and "takeWhile is_word line \<noteq> []"
proof -
  from assms obtain rest where d: "dropWhile is_word line = CHR ''='' # rest"
    by (auto simp add: re_match_word_eq_def split: list.splits)
  have "line = takeWhile is_word line @ dropWhile is_word line"
    by simp
  with d show "line = takeWhile is_word line @ CHR ''='' # tl (dropWhile is_word line)"
    by simp
  from assms show "takeWhile is_word line \<noteq> []"
    by (simp add: re_match_word_eq_def)
qed

lemma strip_matching_line:
  assumes "re_match_word_eq line"
  shows "strip line = takeWhile is_word line @ CHR ''=''
           # rev (dropWhile is_space (rev (tl (dropWhile is_word line))))"
proof -
  let ?w = "takeWhile is_word line"
  let ?rest = "tl (dropWhile is_word line)"
  have l: "line = ?w @ CHR ''='' # ?rest" and w: "?w \<noteq> []"
    using re_match_decompose [OF assms] by blast+
  have words: "\<forall>c \<in> set ?w. is_word c"
    by (auto dest: set_takeWhileD)
  from w obtain c cs where wc: "?w = c # cs"
    by (cases ?w) auto
  with words have "is_word c"
    by simp
  then have "\<not> is_space c"
    by (rule is_word_not_space)
  then have "dropWhile is_space ((c # cs) @ CHR ''='' # ?rest) = (c # cs) @ CHR ''='' # ?rest"
    by simp
  with wc have "dropWhile is_space (?w @ CHR ''='' # ?rest) = ?w @ CHR ''='' # ?rest"
    by simp
  with l have front: "dropWhile is_space line = ?w @ CHR ''='' # ?rest"
    by simp
  have "rev (?w @ CHR ''='' # ?rest) = rev ?rest @ CHR ''='' # rev ?w"
    by simp
  moreover have "dropWhile is_space (rev ?rest @ CHR ''='' # rev ?w)
                   = dropWhile is_space (rev ?rest) @ CHR ''='' # rev ?w"
    by (rule dropWhile_keeps) (rule eq_not_word)
  ultimately have "rev (dropWhile is_space (rev (?w @ CHR ''='' # ?rest)))
                     = ?w @ CHR ''='' # rev (dropWhile is_space (rev ?rest))"
    by simp
  with front show ?thesis
    by (simp add: strip_def)
qed

lemma line_binding_matching_line:
  assumes "re_match_word_eq line"
  shows "line_binding line
           = (takeWhile is_word line, rev (dropWhile is_space (rev (tl (dropWhile is_word line)))))"
    and "split1 (CHR ''='') (strip line) = [fst (line_binding line), snd (line_binding line)]"
proof -
  let ?w = "takeWhile is_word line"
  let ?v = "rev (dropWhile is_space (rev (tl (dropWhile is_word line))))"
  have s: "strip line = ?w @ CHR ''='' # ?v"
    by (rule strip_matching_line [OF assms])
  have "\<forall>c \<in> set ?w. is_word c"
    by (auto dest: set_takeWhileD)
  then have ne: "\<forall>c \<in> set ?w. c \<noteq> CHR ''=''"
    using eq_not_word(1) by auto
  have t: "takeWhile (\<lambda>c. c \<noteq> CHR ''='') (?w @ CHR ''='' # ?v) = ?w"
    using ne by (intro takeWhile_stops) simp_all
  have d: "dropWhile (\<lambda>c. c \<noteq> CHR ''='') (?w @ CHR ''='' # ?v) = CHR ''='' # ?v"
    using ne by (intro dropWhile_stops) simp_all
  from s t d show b: "line_binding line = (?w, ?v)"
    by (simp add: line_binding_def)
  from s t d b show "split1 (CHR ''='') (strip line) = [fst (line_binding line), snd (line_binding line)]"
    by (simp add: split1_def)
qed

lemma import_line_matching:
  assumes "re_match_word_eq line"
  shows "import_line r line s
           = (Inr (), dict_set (r_env r) (fst (line_binding line)) (snd (line_binding line)) s)"
  using assms line_binding_matching_line(2) [OF assms] by (simp add: import_line_def)

lemma import_line_other:
  assumes "\<not> re_match_word_eq line"
  shows "import_line r line s = (Inr (), print_console line s)"
  using assms by (simp add: import_line_def)

lemma map_add_later_binding:
  "m(k \<mapsto> v) ++ map_of (rev kvs) = m ++ map_of (rev ((k, v) # kvs))"
proof -
  have "m ++ map_of (rev ((k, v) # kvs)) = m ++ (map_of [(k, v)] ++ map_of (rev kvs))"
    by (simp only: rev.simps map_of_append)
  also have "\<dots> = (m ++ map_of [(k, v)]) ++ map_of (rev kvs)"
    by (simp only: map_add_assoc)
  also have "m ++ map_of [(k, v)] = m(k \<mapsto> v)"
    by simp
  finally show ?thesis by simp
qed

lemma import_lines_closed_form: "import_lines r ls s = (Inr (), imported r ls s)"
proof (induction ls arbitrary: s)
  case Nil
  show ?case by (simp add: imported_def)
next
  case (Cons line ls)
  show ?case
  proof (cases "re_match_word_eq line")
    case True
    obtain variable val where b: "line_binding line = (variable, val)"
      by (cases "line_binding line")
    let ?s1 = "dict_set (r_env r) variable val s"
    have "import_lines r (line # ls) s = import_lines r ls ?s1"
      using import_line_matching [OF True, of r s] b by simp
    also have "\<dots> = (Inr (), imported r ls ?s1)"
      by (rule Cons.IH)
    also have "imported r ls ?s1 = imported r (line # ls) s"
    proof -
      let ?kvs = "map line_binding (filter re_match_word_eq ls)"
      let ?s2 = "s\<lparr>dicts := (dicts s)(r_env r := (dicts s (r_env r))(variable \<mapsto> val)
                                   ++ map_of (rev ?kvs)),
                    console := console s @ filter (\<lambda>l. \<not> re_match_word_eq l) ls\<rparr>"
      have f1: "filter re_match_word_eq (line # ls) = line # filter re_match_word_eq ls"
        using True by simp
      have f2: "filter (\<lambda>l. \<not> re_match_word_eq l) (line # ls)
                  = filter (\<lambda>l. \<not> re_match_word_eq l) ls"
        using True by simp
      have k: "map line_binding (line # filter re_match_word_eq ls) = (variable, val) # ?kvs"
        using b by simp
      have "imported r (line # ls) s = ?s2"
        by (simp only: imported_def f1 f2 k map_add_later_binding [symmetric])
      moreover have "imported r ls ?s1 = ?s2"
        by (simp add: imported_def dict_set_def)
      ultimately show ?thesis by simp
    qed
    finally show ?thesis .
  next
    case False
    let ?s1 = "print_console line s"
    have "import_lines r (line # ls) s = import_lines r ls ?s1"
      using import_line_other [OF False, of r s] by simp
    also have "\<dots> = (Inr (), imported r ls ?s1)"
      by (rule Cons.IH)
    also have "imported r ls ?s1 = imported r (line # ls) s"
      using False by (simp add: imported_def print_console_def)
    finally show ?thesis .
  qed
qed


text \<open>
  C2. For every captured output string that \<open>check_output\<close> returns, \<open>import_env\<close>
  raises nothing. It splits the output into lines; the lines that do not match
  \<^verbatim>\<open>\w+=\<close> are written to the console, in their order, and nothing else is; the lines
  that match are bound in the owned mapping, a later line replacing an earlier binding
  and any previous value of the same variable (\<open>m ++ map_of (rev kvs)\<close> gives the last
  binding of a key in \<open>kvs\<close>, and \<open>m\<close> for the keys that \<open>kvs\<close> lacks). For a line that
  matches, the variable is the run of word characters before the first equals sign and
  the value is the rest of the line after that sign, without the white space at the end
  of the line (the line is stripped before it is split). For the output
  \<open>FOO=bar\<close>, \<open>notaline\<close>, \<open>BAZ=qux\<close> (each followed by a line feed) this sets \<open>FOO\<close> to
  \<open>bar\<close> and \<open>BAZ\<close> to \<open>qux\<close> and writes \<open>notaline\<close> (the witness).
\<close>

theorem import_env_sets_matching_lines:
  assumes "check_output w r (CmdStr (env_cmd @ '' && '' @ cmake_command @ '' -E environment''))
             (empty_kwargs\<lparr>kw_shell := Some True\<rparr>) s = (Inr (Some out), s1)"
  shows "import_env w r env_cmd cmake_command s
           = (Inr (),
              s1\<lparr>dicts := (dicts s1)(r_env r := dicts s1 (r_env r)
                     ++ map_of (rev (map line_binding (filter re_match_word_eq (splitlines out))))),
                 console := console s1 @ filter (\<lambda>l. \<not> re_match_word_eq l) (splitlines out)\<rparr>)
         \<and> (\<forall>line \<in> set (splitlines out). re_match_word_eq line \<longrightarrow>
               line_binding line
                 = (takeWhile is_word line, rev (dropWhile is_space (rev (tl (dropWhile is_word line)))))
               \<and> takeWhile is_word line
                   \<in> dom (dicts (snd (import_env w r env_cmd cmake_command s)) (r_env r)))"
proof -
  let ?kvs = "map line_binding (filter re_match_word_eq (splitlines out))"
  have run: "import_env w r env_cmd cmake_command s = (Inr (), imported r (splitlines out) s1)"
  proof (cases "out = []")
    case True
    then have "imported r (splitlines out) s1 = s1"
      by (simp add: imported_def)
    with True assms show ?thesis
      by (simp add: import_env_def)
  next
    case False
    with assms show ?thesis
      by (simp add: import_env_def import_lines_closed_form)
  qed
  have env: "dicts (snd (import_env w r env_cmd cmake_command s)) (r_env r)
               = dicts s1 (r_env r) ++ map_of (rev ?kvs)"
    using run by (simp add: imported_def)
  have "\<forall>line \<in> set (splitlines out). re_match_word_eq line \<longrightarrow>
               line_binding line
                 = (takeWhile is_word line, rev (dropWhile is_space (rev (tl (dropWhile is_word line)))))
               \<and> takeWhile is_word line
                   \<in> dom (dicts (snd (import_env w r env_cmd cmake_command s)) (r_env r))"
  proof (intro ballI impI)
    fix line
    assume mem: "line \<in> set (splitlines out)" and m: "re_match_word_eq line"
    have b: "line_binding line
        = (takeWhile is_word line, rev (dropWhile is_space (rev (tl (dropWhile is_word line)))))"
      by (rule line_binding_matching_line(1) [OF m])
    from mem m have "line_binding line \<in> set (rev ?kvs)"
      by simp
    then have "fst (line_binding line) \<in> fst ` set (rev ?kvs)"
      by (rule imageI)
    then have "fst (line_binding line) \<in> dom (map_of (rev ?kvs))"
      by (simp only: dom_map_of_conv_image_fst)
    with b have "takeWhile is_word line \<in> dom (dicts s1 (r_env r) ++ map_of (rev ?kvs))"
      by simp
    with b env show "line_binding line
        = (takeWhile is_word line, rev (dropWhile is_space (rev (tl (dropWhile is_word line)))))
      \<and> takeWhile is_word line \<in> dom (dicts (snd (import_env w r env_cmd cmake_command s)) (r_env r))"
      by simp
  qed
  with run show ?thesis
    by (simp add: imported_def)
qed

theorem import_env_sets_matching_lines_witness:
  "check_output example_os (example_runner (Some OTHER) Executor)
      (CmdStr ''setup.sh && cmake -E environment'') (empty_kwargs\<lparr>kw_shell := Some True\<rparr>)
      (example_started [''PATH'' \<mapsto> ''/usr/bin''])
     = (Inr (Some example_output),
        print_console ''+ setup.sh && cmake -E environment'' (example_started [''PATH'' \<mapsto> ''/usr/bin'']))
   \<and> splitlines example_output = [''FOO=bar'', ''notaline'', ''BAZ=qux'']
   \<and> fst (import_env example_os (example_runner (Some OTHER) Executor) ''setup.sh'' ''cmake''
        (example_started [''PATH'' \<mapsto> ''/usr/bin''])) = Inr ()
   \<and> dicts (snd (import_env example_os (example_runner (Some OTHER) Executor) ''setup.sh'' ''cmake''
        (example_started [''PATH'' \<mapsto> ''/usr/bin'']))) (r_env (example_runner (Some OTHER) Executor))
        ''FOO'' = Some ''bar''
   \<and> dicts (snd (import_env example_os (example_runner (Some OTHER) Executor) ''setup.sh'' ''cmake''
        (example_started [''PATH'' \<mapsto> ''/usr/bin'']))) (r_env (example_runner (Some OTHER) Executor))
        ''BAZ'' = Some ''qux''
   \<and> dicts (snd (import_env example_os (example_runner (Some OTHER) Executor) ''setup.sh'' ''cmake''
        (example_started [''PATH'' \<mapsto> ''/usr/bin'']))) (r_env (example_runner (Some OTHER) Executor))
        ''PATH'' = Some ''/usr/bin''
   \<and> console (snd (import_env example_os (example_runner (Some OTHER) Executor) ''setup.sh'' ''cmake''
        (example_started [''PATH'' \<mapsto> ''/usr/bin''])))
       = [''+ setup.sh && cmake -E environment'', ''notaline'']"
proof -
  let ?r = "example_runner (Some OTHER) Executor"
  let ?s = "example_started [''PATH'' \<mapsto> ''/usr/bin'']"
  let ?c = "''setup.sh && cmake -E environment''"
  have real: "r_executor ?r = Executor"
    by (simp add: example_runner_def CommandRunner_init_def dict_copy_def example_factory_def)
  have con: "console ?s = []"
    by (simp add: example_started_def CommandRunner_init_def dict_copy_def example_state_def)
  have env: "dicts ?s (r_env ?r) = [''PATH'' \<mapsto> ''/usr/bin'']"
    by (simp add: example_runner_def example_started_def CommandRunner_init_def dict_copy_def
        example_factory_def example_state_def)
  have out: "check_output example_os ?r (CmdStr ?c) (empty_kwargs\<lparr>kw_shell := Some True\<rparr>) ?s
               = (Inr (Some example_output), print_console (''+ '' @ ?c) ?s)"
    using real
    by (simp add: check_output_def prepare_cmd_def cmd_to_string_def executor_check_output_def
        subprocess_check_output_def example_os_def example_spawn_def empty_kwargs_def Let_def)
  have lines: "splitlines example_output = [''FOO=bar'', ''notaline'', ''BAZ=qux'']"
    by (simp add: example_output_def is_linebreak_def)
  have m: "re_match_word_eq ''FOO=bar''" "\<not> re_match_word_eq ''notaline''"
      "re_match_word_eq ''BAZ=qux''"
    by (simp_all add: re_match_word_eq_def is_word_def ascii_letters_def digits_def)
  have b: "line_binding ''FOO=bar'' = (''FOO'', ''bar'')" "line_binding ''BAZ=qux'' = (''BAZ'', ''qux'')"
    by (simp_all add: line_binding_def strip_def is_space_def)
  have "check_output example_os ?r (CmdStr (''setup.sh'' @ '' && '' @ ''cmake'' @ '' -E environment''))
          (empty_kwargs\<lparr>kw_shell := Some True\<rparr>) ?s
        = (Inr (Some example_output), print_console (''+ '' @ ?c) ?s)"
    using out by simp
  note inst = import_env_sets_matching_lines [OF this]
  then have run: "import_env example_os ?r ''setup.sh'' ''cmake'' ?s
      = (Inr (), (print_console (''+ '' @ ?c) ?s)
           \<lparr>dicts := (dicts (print_console (''+ '' @ ?c) ?s))(r_env ?r :=
                dicts (print_console (''+ '' @ ?c) ?s) (r_env ?r)
                  ++ map_of (rev (map line_binding (filter re_match_word_eq (splitlines example_output))))),
             console := console (print_console (''+ '' @ ?c) ?s)
                  @ filter (\<lambda>l. \<not> re_match_word_eq l) (splitlines example_output)\<rparr>)"
    by (rule conjunct1)
  show ?thesis
    using out lines
    by (simp add: run m b env con print_console_def)
qed

subsection \<open>The environment of a runner is its own\<close>

lemma dict_set_frame: "a \<noteq> b \<Longrightarrow> dicts (dict_set b k v s) a = dicts s a"
  by (simp add: dict_set_def)

lemma import_line_frame: "a \<noteq> r_env r \<Longrightarrow> dicts (snd (import_line r line s)) a = dicts s a"
  by (simp add: import_line_def dict_set_frame print_console_def split: list.splits)

lemma import_lines_frame: "a \<noteq> r_env r \<Longrightarrow> dicts (snd (import_lines r ls s)) a = dicts s a"
proof (induction ls arbitrary: s)
  case Nil
  show ?case by simp
next
  case (Cons line ls)
  obtain res s1 where step: "import_line r line s = (res, s1)"
    by (cases "import_line r line s")
  with Cons.prems have "dicts s1 a = dicts s a"
    using import_line_frame [of a r line s] by simp
  with step Cons show ?case
    by (cases res) simp_all
qed

lemma prepare_cmd_dicts: "dicts (snd (prepare_cmd r c kw s)) = dicts s"
  by (cases "cmd_to_string r c (case kw_shell kw of None \<Rightarrow> False | Some b \<Rightarrow> b)")
    (simp_all add: prepare_cmd_def print_console_def Let_def)

lemma check_output_dicts: "dicts (snd (check_output w r c kw s)) = dicts s"
proof -
  obtain res s1 where p: "prepare_cmd r c kw s = (res, s1)"
    by (cases "prepare_cmd r c kw s")
  then have same: "dicts s1 = dicts s"
    using prepare_cmd_dicts [of r c kw s] by simp
  show ?thesis
  proof (cases res)
    case (Inl e)
    with p same show ?thesis by (simp add: check_output_def)
  next
    case (Inr pr)
    obtain cmd_string kw1 where pr: "pr = (cmd_string, kw1)"
      by (cases pr)
    show ?thesis
    proof (cases "executor_check_output w (r_executor r) c kw1")
      case (Inl e)
      with p same Inr pr show ?thesis by (simp add: check_output_def)
    next
      case (Inr out)
      with p same \<open>res = Inr pr\<close> pr show ?thesis by (simp add: check_output_def)
    qed
  qed
qed

lemma import_env_frame:
  assumes "a \<noteq> r_env r"
  shows "dicts (snd (import_env w r env_cmd cmake_command s)) a = dicts s a"
proof -
  let ?c = "CmdStr (env_cmd @ '' && '' @ cmake_command @ '' -E environment'')"
  obtain res s1 where co: "check_output w r ?c (empty_kwargs\<lparr>kw_shell := Some True\<rparr>) s = (res, s1)"
    by (cases "check_output w r ?c (empty_kwargs\<lparr>kw_shell := Some True\<rparr>) s")
  then have same: "dicts s1 = dicts s"
    using check_output_dicts [of w r ?c "empty_kwargs\<lparr>kw_shell := Some True\<rparr>" s] by simp
  show ?thesis
  proof (cases res)
    case (Inl e)
    with co same show ?thesis by (simp add: import_env_def)
  next
    case (Inr new_env)
    with co same assms show ?thesis
      by (simp add: import_env_def import_lines_frame split: option.splits)
  qed
qed

lemma run_op_frame:
  assumes "a \<noteq> r_env r"
  shows "dicts (snd (run_op w r x s)) a = dicts s a"
proof (cases x)
  case (SetVar variable val)
  with assms show ?thesis
    by (cases val) (simp_all add: set_env_var_def dict_set_frame)
next
  case (AppendVar variable val sep)
  with assms show ?thesis
    by (cases "dicts s (r_env r) variable") (simp_all add: append_to_env_var_def dict_set_frame)
next
  case (PrependVar variable val sep)
  with assms show ?thesis
    by (cases "dicts s (r_env r) variable") (simp_all add: prepend_to_env_var_def dict_set_frame)
next
  case (ImportEnv env_cmd cmake_command)
  with assms show ?thesis
    by (simp add: import_env_frame)
qed

lemma run_ops_frame: "a \<noteq> r_env r \<Longrightarrow> dicts (snd (run_ops w r ops s)) a = dicts s a"
proof (induction ops arbitrary: s)
  case Nil
  show ?case by simp
next
  case (Cons x xs)
  obtain res s1 where step: "run_op w r x s = (res, s1)"
    by (cases "run_op w r x s")
  with Cons.prems have "dicts s1 a = dicts s a"
    using run_op_frame [of a r w x s] by simp
  with step Cons show ?case
    by (cases res) simp_all
qed

text \<open>
  C5. The constructor copies the snapshot of the factory into a dictionary of its own: the
  runner's reference differs from the factory's, the copy has the entries of the
  snapshot, and the snapshot itself is as before. From then on, in whatever state, no
  sequence of \<open>set_env_var\<close>, \<open>append_to_env_var\<close>, \<open>prepend_to_env_var\<close> and
  \<open>import_env\<close> calls on the runner changes the snapshot, and no change of the snapshot
  changes the runner's mapping. (The snapshot is a dictionary of the store: its address
  is below the limit.)
\<close>

theorem runner_env_copied_not_aliased:
  assumes "f_env f < dict_lim s"
    and "CommandRunner_init f s = (r, s0)"
  shows "r_env r \<noteq> f_env f
         \<and> dicts s0 (r_env r) = dicts s (f_env f)
         \<and> dicts s0 (f_env f) = dicts s (f_env f)
         \<and> (\<forall>ops s1. dicts (snd (run_ops w r ops s1)) (f_env f) = dicts s1 (f_env f))
         \<and> (\<forall>g s1. dicts (dict_mutate (f_env f) g s1) (r_env r) = dicts s1 (r_env r))"
proof -
  from assms have fresh: "r_env r = dict_lim s"
    by (auto simp add: CommandRunner_init_def dict_copy_def Let_def)
  with assms(1) have neq: "f_env f \<noteq> r_env r"
    by simp
  from assms(2) have s0: "s0 = snd (dict_copy (f_env f) s)"
    by (auto simp add: CommandRunner_init_def Let_def split: prod.splits)
  have "dicts s0 (r_env r) = dicts s (f_env f)"
    using fresh s0 by (simp add: dict_copy_def)
  moreover have "dicts s0 (f_env f) = dicts s (f_env f)"
    using neq fresh s0 by (simp add: dict_copy_def)
  moreover have "\<forall>ops s1. dicts (snd (run_ops w r ops s1)) (f_env f) = dicts s1 (f_env f)"
    using run_ops_frame [OF neq] by simp
  moreover have "\<forall>g s1. dicts (dict_mutate (f_env f) g s1) (r_env r) = dicts s1 (r_env r)"
    using neq by (simp add: dict_mutate_def)
  ultimately show ?thesis using neq by simp
qed

theorem runner_env_copied_not_aliased_witness:
  "f_env (example_factory (Some OTHER) Executor) < dict_lim (example_state [''PATH'' \<mapsto> ''/usr/bin''])
   \<and> CommandRunner_init (example_factory (Some OTHER) Executor) (example_state [''PATH'' \<mapsto> ''/usr/bin''])
       = (example_runner (Some OTHER) Executor, example_started [''PATH'' \<mapsto> ''/usr/bin''])
   \<and> r_env (example_runner (Some OTHER) Executor) = 1
   \<and> f_env (example_factory (Some OTHER) Executor) = 0
   \<and> dicts (snd (run_ops example_os (example_runner (Some OTHER) Executor)
        [SetVar ''CC'' (Some ''gcc''), AppendVar ''PATH'' ''/x'' '':'', PrependVar ''PATH'' ''/y'' '':'',
         ImportEnv ''setup.sh'' ''cmake'']
        (example_started [''PATH'' \<mapsto> ''/usr/bin'']))) 0 = [''PATH'' \<mapsto> ''/usr/bin'']
   \<and> dicts (dict_mutate 0 (\<lambda>e. e(''PATH'' := None)) (example_started [''PATH'' \<mapsto> ''/usr/bin''])) 1
       = [''PATH'' \<mapsto> ''/usr/bin'']"
proof -
  let ?f = "example_factory (Some OTHER) Executor"
  let ?s = "example_state [''PATH'' \<mapsto> ''/usr/bin'']"
  let ?r = "example_runner (Some OTHER) Executor"
  let ?t = "example_started [''PATH'' \<mapsto> ''/usr/bin'']"
  have lim: "f_env ?f < dict_lim ?s"
    by (simp add: example_factory_def example_state_def)
  have init: "CommandRunner_init ?f ?s = (?r, ?t)"
    by (simp add: example_runner_def example_started_def CommandRunner_init_def dict_copy_def
        example_factory_def example_state_def)
  have addr: "r_env ?r = 1" "f_env ?f = 0"
    by (simp_all add: example_runner_def CommandRunner_init_def dict_copy_def
        example_factory_def example_state_def)
  have before: "dicts ?s 0 = [''PATH'' \<mapsto> ''/usr/bin'']"
    by (simp add: example_state_def)
  from lim init addr before runner_env_copied_not_aliased [OF lim init, of example_os]
  show ?thesis by (simp del: run_ops.simps)
qed

subsection \<open>Rendering a command for display\<close>

lemma join_Cons: "join sep (x # xs) = x @ concat (map (\<lambda>y. sep @ y) xs)"
  by (induction xs arbitrary: x) simp_all

lemma list2cmdline_chars_prefix:
  "list2cmdline_chars cs (res, bs)
     = (res @ fst (list2cmdline_chars cs ([], bs)), snd (list2cmdline_chars cs ([], bs)))"
proof (induction cs arbitrary: res bs)
  case Nil
  show ?case by simp
next
  case (Cons c cs)
  show ?case
  proof (cases "c = backslash")
    case True
    then show ?thesis using Cons.IH [of res "bs @ [c]"] by simp
  next
    case False
    note nb = this
    show ?thesis
    proof (cases "c = dquote")
      case True
      let ?x = "replicate (length bs * 2) backslash @ [backslash, dquote]"
      have "list2cmdline_chars (c # cs) (res, bs) = list2cmdline_chars cs (res @ ?x, [])"
        using nb True by simp
      also have "\<dots> = ((res @ ?x) @ fst (list2cmdline_chars cs ([], [])),
                        snd (list2cmdline_chars cs ([], [])))"
        by (rule Cons.IH)
      finally have lhs: "list2cmdline_chars (c # cs) (res, bs)
          = (res @ ?x @ fst (list2cmdline_chars cs ([], [])), snd (list2cmdline_chars cs ([], [])))"
        by simp
      have "list2cmdline_chars (c # cs) ([], bs) = list2cmdline_chars cs (?x, [])"
        using nb True by simp
      also have "\<dots> = (?x @ fst (list2cmdline_chars cs ([], [])),
                        snd (list2cmdline_chars cs ([], [])))"
        by (rule Cons.IH)
      finally show ?thesis using lhs by simp
    next
      case False
      let ?x = "bs @ [c]"
      have "list2cmdline_chars (c # cs) (res, bs) = list2cmdline_chars cs (res @ ?x, [])"
        using nb False by simp
      also have "\<dots> = ((res @ ?x) @ fst (list2cmdline_chars cs ([], [])),
                        snd (list2cmdline_chars cs ([], [])))"
        by (rule Cons.IH)
      finally have lhs: "list2cmdline_chars (c # cs) (res, bs)
          = (res @ ?x @ fst (list2cmdline_chars cs ([], [])), snd (list2cmdline_chars cs ([], [])))"
        by simp
      have "list2cmdline_chars (c # cs) ([], bs) = list2cmdline_chars cs (?x, [])"
        using nb False by simp
      also have "\<dots> = (?x @ fst (list2cmdline_chars cs ([], [])),
                        snd (list2cmdline_chars cs ([], [])))"
        by (rule Cons.IH)
      finally show ?thesis using lhs by simp
    qed
  qed
qed

lemma list2cmdline_chars_length:
  "length res + length bs + length cs
     \<le> length (fst (list2cmdline_chars cs (res, bs))) + length (snd (list2cmdline_chars cs (res, bs)))"
proof (induction cs arbitrary: res bs)
  case Nil
  show ?case by simp
next
  case (Cons c cs)
  show ?case
  proof (cases "c = backslash")
    case True
    then show ?thesis using Cons.IH [of res "bs @ [c]"] by simp
  next
    case False
    then show ?thesis
      using Cons.IH [of "res @ replicate (length bs * 2) backslash @ [backslash, dquote]" "[]"]
        Cons.IH [of "res @ bs @ [c]" "[]"]
      by simp
  qed
qed

lemma list2cmdline_chars_plain:
  "\<forall>c \<in> set cs. c \<noteq> backslash \<and> c \<noteq> dquote \<Longrightarrow> list2cmdline_chars cs (res, []) = (res @ cs, [])"
  by (induction cs arbitrary: res) simp_all

lemma list2cmdline_single:
  "list2cmdline [arg] =
     (if CHR '' '' \<in> set arg \<or> CHR 0x09 \<in> set arg \<or> arg = []
      then [dquote] @ fst (list2cmdline_chars arg ([], [])) @ snd (list2cmdline_chars arg ([], []))
           @ snd (list2cmdline_chars arg ([], [])) @ [dquote]
      else fst (list2cmdline_chars arg ([], [])) @ snd (list2cmdline_chars arg ([], [])))"
proof -
  have p: "list2cmdline_chars arg ([dquote], [])
     = ([dquote] @ fst (list2cmdline_chars arg ([], [])), snd (list2cmdline_chars arg ([], [])))"
    by (rule list2cmdline_chars_prefix)
  obtain a b where ab: "list2cmdline_chars arg ([], []) = (a, b)"
    by (cases "list2cmdline_chars arg ([], [])")
  with p show ?thesis
    by (simp add: list2cmdline_def Let_def)
qed

lemma list2cmdline_single_nonempty: "list2cmdline [arg] \<noteq> []"
proof (cases "CHR '' '' \<in> set arg \<or> CHR 0x09 \<in> set arg \<or> arg = []")
  case True
  then show ?thesis by (simp add: list2cmdline_single)
next
  case False
  have le: "length arg \<le> length (fst (list2cmdline_chars arg ([], [])))
                          + length (snd (list2cmdline_chars arg ([], [])))"
    using list2cmdline_chars_length [of "[]" "[]" arg] by simp
  have "fst (list2cmdline_chars arg ([], [])) @ snd (list2cmdline_chars arg ([], [])) \<noteq> []"
  proof
    assume "fst (list2cmdline_chars arg ([], [])) @ snd (list2cmdline_chars arg ([], [])) = []"
    then have "fst (list2cmdline_chars arg ([], [])) = []" "snd (list2cmdline_chars arg ([], [])) = []"
      by simp_all
    with le have "length arg \<le> 0" by (simp only: list.size)
    with False show False by simp
  qed
  moreover have "list2cmdline [arg]
      = fst (list2cmdline_chars arg ([], [])) @ snd (list2cmdline_chars arg ([], []))"
    using False by (simp add: list2cmdline_single)
  ultimately show ?thesis by simp
qed

lemma list2cmdline_args_step:
  "list2cmdline_args (arg # seq) result
     = list2cmdline_args seq ((if result \<noteq> [] then result @ '' '' else result) @ list2cmdline [arg])"
proof -
  let ?pre = "if result \<noteq> [] then result @ '' '' else result"
  obtain a b where ab: "list2cmdline_chars arg ([], []) = (a, b)"
    by (cases "list2cmdline_chars arg ([], [])")
  have p1: "list2cmdline_chars arg (?pre @ [dquote], []) = ((?pre @ [dquote]) @ a, b)"
    using list2cmdline_chars_prefix [of arg "?pre @ [dquote]" "[]"] ab by simp
  have p2: "list2cmdline_chars arg (?pre, []) = (?pre @ a, b)"
    using list2cmdline_chars_prefix [of arg "?pre" "[]"] ab by simp
  show ?thesis
  proof (cases "CHR '' '' \<in> set arg \<or> CHR 0x09 \<in> set arg \<or> arg = []")
    case True
    have "list2cmdline_args (arg # seq) result
            = list2cmdline_args seq (((?pre @ [dquote]) @ a) @ b @ b @ [dquote])"
      using True p1 by (simp add: Let_def)
    moreover have "list2cmdline [arg] = [dquote] @ a @ b @ b @ [dquote]"
      using True ab by (simp add: list2cmdline_single)
    ultimately show ?thesis by simp
  next
    case False
    have "list2cmdline_args (arg # seq) result = list2cmdline_args seq ((?pre @ a) @ b)"
      using False p2 by (simp add: Let_def)
    moreover have "list2cmdline [arg] = a @ b"
      using False ab by (simp add: list2cmdline_single)
    ultimately show ?thesis by simp
  qed
qed

lemma list2cmdline_args_concat:
  "result \<noteq> [] \<Longrightarrow>
     list2cmdline_args seq result = result @ concat (map (\<lambda>t. '' '' @ list2cmdline [t]) seq)"
proof (induction seq arbitrary: result)
  case Nil
  show ?case by simp
next
  case (Cons arg seq)
  have "list2cmdline_args (arg # seq) result
          = list2cmdline_args seq ((result @ '' '') @ list2cmdline [arg])"
    using Cons.prems by (simp add: list2cmdline_args_step del: list2cmdline_args.simps)
  also have "\<dots> = ((result @ '' '') @ list2cmdline [arg])
                   @ concat (map (\<lambda>t. '' '' @ list2cmdline [t]) seq)"
    using Cons.prems by (intro Cons.IH) simp
  finally show ?case by simp
qed

lemma list2cmdline_join:
  "list2cmdline seq = join '' '' (map (\<lambda>t. list2cmdline [t]) seq)"
proof (cases seq)
  case Nil
  then show ?thesis by (simp add: list2cmdline_def)
next
  case (Cons arg rest)
  have "list2cmdline (arg # rest) = list2cmdline_args rest (list2cmdline [arg])"
    unfolding list2cmdline_def [of "arg # rest"] by (simp only: list2cmdline_args_step) simp
  also have "\<dots> = list2cmdline [arg] @ concat (map (\<lambda>t. '' '' @ list2cmdline [t]) rest)"
    by (rule list2cmdline_args_concat) (rule list2cmdline_single_nonempty)
  also have "\<dots> = join '' '' (map (\<lambda>t. list2cmdline [t]) (arg # rest))"
    by (simp add: join_Cons comp_def)
  finally show ?thesis using Cons by simp
qed


lemma shell_metachars_unsafe: "ch \<in> set shell_metachars \<Longrightarrow> ch \<notin> set safechars"
  by (auto simp add: shell_metachars_def safechars_def ascii_letters_def digits_def)

lemma quote_unsafe:
  assumes "ch \<in> set t" and "ch \<notin> set safechars"
  shows "quote t = [squote] @ replace_squote t @ [squote]"
proof -
  from assms have "\<not> list_all (\<lambda>c. c \<in> set safechars) t"
    by (auto simp add: list_all_iff)
  then show ?thesis by (simp add: quote_def)
qed

text \<open>
  C3, as the code has it. In shell mode the command is returned as it is. In argv mode
  on a platform other than Windows each token is quoted by \<open>quote\<close> and the results are
  joined with single spaces; a token that contains a space or another shell metacharacter
  is wrapped in single quotes. In argv mode on Windows the rendering is \<open>list2cmdline\<close>
  of the tokens, which is the renderings of the single tokens joined with single spaces;
  a token that contains a space or a tab is wrapped in double quotes, and a token that
  is not empty and has no space, tab, double quote or backslash is rendered as it is,
  whatever other white space it contains.
\<close>

theorem cmd_to_string_rendering:
  "cmd_to_string r c True = c
   \<and> (\<not> r_is_windows r \<longrightarrow>
        cmd_to_string r (CmdList toks) False = CmdStr (join '' '' (map quote toks)))
   \<and> ((\<exists>ch \<in> set t. ch \<in> set shell_metachars) \<longrightarrow>
        quote t = [squote] @ replace_squote t @ [squote])
   \<and> (r_is_windows r \<longrightarrow>
        cmd_to_string r (CmdList toks) False = CmdStr (list2cmdline toks)
        \<and> list2cmdline toks = join '' '' (map (\<lambda>t. list2cmdline [t]) toks))
   \<and> (CHR '' '' \<in> set t \<or> CHR 0x09 \<in> set t \<longrightarrow>
        (\<exists>body. list2cmdline [t] = [dquote] @ body @ [dquote]))
   \<and> (t \<noteq> [] \<and> (\<forall>ch \<in> set t. ch \<notin> set [CHR '' '', CHR 0x09, dquote, backslash]) \<longrightarrow>
        list2cmdline [t] = t)"
proof (intro conjI impI)
  show "cmd_to_string r c True = c"
    by (simp add: cmd_to_string_def)
next
  assume "\<not> r_is_windows r"
  then show "cmd_to_string r (CmdList toks) False = CmdStr (join '' '' (map quote toks))"
    by (simp add: cmd_to_string_def tokens_def)
next
  assume "\<exists>ch \<in> set t. ch \<in> set shell_metachars"
  then obtain ch where "ch \<in> set t" and "ch \<in> set shell_metachars"
    by blast
  then show "quote t = [squote] @ replace_squote t @ [squote]"
    using quote_unsafe shell_metachars_unsafe by blast
next
  assume "r_is_windows r"
  then show "cmd_to_string r (CmdList toks) False = CmdStr (list2cmdline toks)"
    by (simp add: cmd_to_string_def tokens_def)
next
  show "list2cmdline toks = join '' '' (map (\<lambda>t. list2cmdline [t]) toks)"
    by (rule list2cmdline_join)
next
  assume "CHR '' '' \<in> set t \<or> CHR 0x09 \<in> set t"
  then have "CHR '' '' \<in> set t \<or> CHR 0x09 \<in> set t \<or> t = []"
    by blast
  then have "list2cmdline [t]
      = [dquote] @ (fst (list2cmdline_chars t ([], [])) @ snd (list2cmdline_chars t ([], []))
           @ snd (list2cmdline_chars t ([], []))) @ [dquote]"
    by (simp add: list2cmdline_single)
  then show "\<exists>body. list2cmdline [t] = [dquote] @ body @ [dquote]"
    by (rule exI)
next
  assume plain: "t \<noteq> [] \<and> (\<forall>ch \<in> set t. ch \<notin> set [CHR '' '', CHR 0x09, dquote, backslash])"
  then have "\<forall>c \<in> set t. c \<noteq> backslash \<and> c \<noteq> dquote"
    by auto
  then have "list2cmdline_chars t ([], []) = ([] @ t, [])"
    by (rule list2cmdline_chars_plain)
  moreover from plain have "\<not> (CHR '' '' \<in> set t \<or> CHR 0x09 \<in> set t \<or> t = [])"
    by auto
  ultimately show "list2cmdline [t] = t"
    by (simp add: list2cmdline_single)
qed

theorem cmd_to_string_rendering_witness:
  "cmd_to_string (example_runner (Some OTHER) Executor) (CmdStr ''ls -l | wc'') True
     = CmdStr ''ls -l | wc''
   \<and> \<not> r_is_windows (example_runner (Some OTHER) Executor)
   \<and> cmd_to_string (example_runner (Some OTHER) Executor) (CmdList [''echo'', ''a b'', ''x;y'']) False
     = CmdStr (''echo '' @ [squote] @ ''a b'' @ [squote] @ '' '' @ [squote] @ ''x;y'' @ [squote])
   \<and> r_is_windows (example_runner (Some WINDOWS) Executor)
   \<and> cmd_to_string (example_runner (Some WINDOWS) Executor)
        (CmdList [''echo'', ''a b'', [CHR ''c'', CHR 0x09, CHR ''d''], ''x;y'']) False
     = CmdStr (''echo '' @ [dquote] @ ''a b'' @ [dquote] @ '' '' @ [dquote]
               @ [CHR ''c'', CHR 0x09, CHR ''d''] @ [dquote] @ '' x;y'')"
proof -
  let ?u = "example_runner (Some OTHER) Executor"
  let ?v = "example_runner (Some WINDOWS) Executor"
  have unix: "\<not> r_is_windows ?u"
    by (simp add: example_runner_def CommandRunner_init_def dict_copy_def example_factory_def)
  have win: "r_is_windows ?v"
    by (simp add: example_runner_def CommandRunner_init_def dict_copy_def example_factory_def)
  have q1: "quote ''echo'' = ''echo''"
    by (simp add: quote_def safechars_def ascii_letters_def digits_def)
  have q2: "quote ''a b'' = [squote] @ ''a b'' @ [squote]"
    by (simp add: quote_def safechars_def ascii_letters_def digits_def replace_squote_def squote_def)
  have q3: "quote ''x;y'' = [squote] @ ''x;y'' @ [squote]"
    by (simp add: quote_def safechars_def ascii_letters_def digits_def replace_squote_def squote_def)
  have w1: "list2cmdline [''echo''] = ''echo''"
    by (simp add: list2cmdline_def Let_def dquote_def backslash_def)
  have w2: "list2cmdline [''a b''] = [dquote] @ ''a b'' @ [dquote]"
    by (simp add: list2cmdline_def Let_def dquote_def backslash_def)
  have w3: "list2cmdline [[CHR ''c'', CHR 0x09, CHR ''d'']]
              = [dquote] @ [CHR ''c'', CHR 0x09, CHR ''d''] @ [dquote]"
    by (simp add: list2cmdline_def Let_def dquote_def backslash_def)
  have w4: "list2cmdline [''x;y''] = ''x;y''"
    by (simp add: list2cmdline_def Let_def dquote_def backslash_def)
  note a = cmd_to_string_rendering [of ?u "CmdStr ''ls -l | wc''" "[''echo'', ''a b'', ''x;y'']" "''a b''"]
  note b = cmd_to_string_rendering [of ?v "CmdStr ''ls -l | wc''"
      "[''echo'', ''a b'', [CHR ''c'', CHR 0x09, CHR ''d''], ''x;y'']" "''a b''"]
  have c1: "cmd_to_string ?u (CmdStr ''ls -l | wc'') True = CmdStr ''ls -l | wc''"
    using a by blast
  have c2: "cmd_to_string ?u (CmdList [''echo'', ''a b'', ''x;y'']) False
              = CmdStr (join '' '' (map quote [''echo'', ''a b'', ''x;y'']))"
    using a unix by blast
  have c3: "cmd_to_string ?v (CmdList [''echo'', ''a b'', [CHR ''c'', CHR 0x09, CHR ''d''], ''x;y'']) False
              = CmdStr (join '' '' (map (\<lambda>t. list2cmdline [t])
                  [''echo'', ''a b'', [CHR ''c'', CHR 0x09, CHR ''d''], ''x;y'']))"
    using b win by simp
  from c1 unix win c2 c3 show ?thesis
    by (simp add: q1 q2 q3 w1 w2 w3 w4)
qed

text \<open>C3, as it is stated, fails on Windows for white space other than space and tab:
  a token with a line feed is rendered without quotes.\<close>

theorem windows_newline_token_not_wrapped:
  "is_space (CHR 0x0A)
   \<and> CHR 0x0A \<in> set [CHR ''a'', CHR 0x0A, CHR ''b'']
   \<and> r_is_windows (example_runner (Some WINDOWS) Executor)
   \<and> cmd_to_string (example_runner (Some WINDOWS) Executor)
        (CmdList [[CHR ''a'', CHR 0x0A, CHR ''b'']]) False
     = CmdStr [CHR ''a'', CHR 0x0A, CHR ''b'']"
proof -
  have win: "r_is_windows (example_runner (Some WINDOWS) Executor)"
    by (simp add: example_runner_def CommandRunner_init_def dict_copy_def example_factory_def)
  have "list2cmdline [[CHR ''a'', CHR 0x0A, CHR ''b'']] = [CHR ''a'', CHR 0x0A, CHR ''b'']"
    by (simp add: list2cmdline_def Let_def dquote_def backslash_def)
  with win show ?thesis
    by (simp add: cmd_to_string_def tokens_def is_space_def)
qed

end
